theory Spec2Isabelle
  imports Main "HOL-Library.Word"
begin

unbundle bit_operations_syntax

section \<open>The SMT-LIB v2 front end of src/parser/bzlasmt2.c\<close>

text \<open>
  A shallow embedding of the parts of \<^verbatim>\<open>bzlasmt2.c\<close> that the properties below are
  about: the logic recorded at the end of \<^verbatim>\<open>parse_smt2_parser\<close>, the symbol table,
  the numeral branch of the lexer, and the reductions of \<^verbatim>\<open>close_term\<close> and
  \<^verbatim>\<open>parse_open_term_indexed\<close>.
\<close>

subsection \<open>Logic recorded in the parse result\<close>

text \<open>
  The enumerators of \<^verbatim>\<open>BzlaLogic\<close> that \<^verbatim>\<open>bzlasmt2.c\<close> names. The declaration of
  the enumeration (\<^verbatim>\<open>bzlaparse.h\<close>) is not part of the sources at hand, so the
  enumerator with value 0, which \<^verbatim>\<open>BZLA_CLR(res)\<close> stores in \<^verbatim>\<open>res->logic\<close> at the
  start of \<^verbatim>\<open>parse_smt2_parser\<close>, is a parameter wherever it matters.
\<close>

datatype BzlaLogic =
    BZLA_LOGIC_BV
  | BZLA_LOGIC_QF_ABV
  | BZLA_LOGIC_QF_AUFBV
  | BZLA_LOGIC_QF_BV
  | BZLA_LOGIC_QF_FP
  | BZLA_LOGIC_QF_UFBV
  | BZLA_LOGIC_ALL

text \<open>
  The fields of \<^verbatim>\<open>BzlaSMT2Parser\<close> read after the command loop of
  \<^verbatim>\<open>parse_smt2_parser\<close>: \<^verbatim>\<open>commands.set_logic\<close> counts the \<^verbatim>\<open>set-logic\<close> commands,
  \<^verbatim>\<open>res_logic\<close> is \<^verbatim>\<open>parser->res->logic\<close>.
\<close>

record logic_state =
  need_arrays :: bool
  need_functions :: bool
  need_quantifiers :: bool
  commands_set_logic :: nat
  res_logic :: BzlaLogic

text \<open>
  The two level-1 messages of the inference: "found functions thus using '<logic>' logic"
  and "no functions found thus restricting logic to '<logic>'".
\<close>

datatype logic_msg =
    Found_functions_thus_using BzlaLogic
  | No_functions_found_thus_restricting_to BzlaLogic

text \<open>
  Lines 5994 to 6036 of \<^verbatim>\<open>parse_smt2_parser\<close>: the result is the final
  \<^verbatim>\<open>res->logic\<close> together with the messages given to \<^verbatim>\<open>BZLA_MSG\<close> (level 1).
\<close>

definition determine_logic :: "logic_state \<Rightarrow> logic_msg list \<times> BzlaLogic" where
  "determine_logic p =
     (if need_functions p \<and> need_arrays p \<and> res_logic p = BZLA_LOGIC_QF_BV
      then ([Found_functions_thus_using BZLA_LOGIC_QF_AUFBV], BZLA_LOGIC_QF_AUFBV)
      else if need_functions p \<and> res_logic p = BZLA_LOGIC_QF_BV
      then ([Found_functions_thus_using BZLA_LOGIC_QF_UFBV], BZLA_LOGIC_QF_UFBV)
      else if res_logic p = BZLA_LOGIC_ALL
      then (if \<not> need_quantifiers p
            then (if need_functions p \<or> need_arrays p
                  then ([], BZLA_LOGIC_QF_AUFBV)
                  else ([], BZLA_LOGIC_QF_BV))
            else ([], BZLA_LOGIC_BV))
      else if commands_set_logic p \<noteq> 0
      then (if \<not> need_functions p \<and> \<not> need_arrays p \<and> \<not> need_quantifiers p
               \<and> res_logic p = BZLA_LOGIC_QF_AUFBV
            then ([No_functions_found_thus_restricting_to BZLA_LOGIC_QF_BV], BZLA_LOGIC_QF_BV)
            else ([], res_logic p))
      else ([], res_logic p))"

text \<open>
  A run without \<^verbatim>\<open>set-logic\<close>: \<^verbatim>\<open>res->logic\<close> still holds the zero enumerator
  \<open>zero\<close> and \<^verbatim>\<open>commands.set_logic\<close> is 0 when the command loop ends.
\<close>

definition logic_without_set_logic ::
  "BzlaLogic \<Rightarrow> bool \<Rightarrow> bool \<Rightarrow> bool \<Rightarrow> BzlaLogic" where
  "logic_without_set_logic zero fs as qs =
     snd (determine_logic \<lparr>need_arrays = as, need_functions = fs, need_quantifiers = qs,
                           commands_set_logic = 0, res_logic = zero\<rparr>)"

text \<open>The logic the specification's inference rule gives for the observed features.\<close>

definition spec_inferred_logic :: "bool \<Rightarrow> bool \<Rightarrow> bool \<Rightarrow> BzlaLogic" where
  "spec_inferred_logic fs as qs =
     (if qs then BZLA_LOGIC_BV
      else if fs \<and> as then BZLA_LOGIC_QF_AUFBV
      else if fs then BZLA_LOGIC_QF_UFBV
      else BZLA_LOGIC_QF_BV)"

subsection \<open>Backend terms\<close>

type_synonym u32 = "32 word"

text \<open>
  Modelled from the spec: the solver backend (the \<^verbatim>\<open>boolector_*\<close> constructors and
  observers and the \<^verbatim>\<open>bzla_bv_*\<close> bit-vector helpers) is not part of the sources at
  hand; the specification treats it as an opaque capability that builds nodes and
  answers questions about their sort. Nodes are kept as symbolic terms, one constructor
  for each backend constructor the embedded code calls, and no rewriting is applied.
  \<open>Boolector_var\<close>, \<open>Boolector_array\<close> and \<open>Boolector_uf\<close> stand for terms of
  bit-vector sort (a width), array sort (index width, element width) and function sort
  (domain widths, codomain width).
\<close>

datatype BoolectorNode =
    Boolector_var string u32
  | Boolector_array string u32 u32
  | Boolector_uf string "u32 list" u32
  | Boolector_const string
  | Boolector_zero u32
  | Boolector_eq BoolectorNode BoolectorNode
  | Boolector_ne BoolectorNode BoolectorNode
  | Boolector_and BoolectorNode BoolectorNode
  | Boolector_bv_slice BoolectorNode u32 u32
  | Boolector_roli BoolectorNode u32
  | Boolector_rori BoolectorNode u32

fun boolector_is_array :: "BoolectorNode \<Rightarrow> bool" where
  "boolector_is_array (Boolector_array _ _ _) = True"
| "boolector_is_array _ = False"

fun boolector_is_fun :: "BoolectorNode \<Rightarrow> bool" where
  "boolector_is_fun (Boolector_uf _ _ _) = True"
| "boolector_is_fun _ = False"

fun boolector_is_const :: "BoolectorNode \<Rightarrow> bool" where
  "boolector_is_const (Boolector_const _) = True"
| "boolector_is_const (Boolector_zero _) = True"
| "boolector_is_const _ = False"

text \<open>The width of a bit-vector term, the element width of an array, the codomain
  width of a function.\<close>

fun boolector_bv_get_width :: "BoolectorNode \<Rightarrow> u32" where
  "boolector_bv_get_width (Boolector_var _ w) = w"
| "boolector_bv_get_width (Boolector_array _ _ e) = e"
| "boolector_bv_get_width (Boolector_uf _ _ c) = c"
| "boolector_bv_get_width (Boolector_const bits) = of_nat (length bits)"
| "boolector_bv_get_width (Boolector_zero w) = w"
| "boolector_bv_get_width (Boolector_eq _ _) = 1"
| "boolector_bv_get_width (Boolector_ne _ _) = 1"
| "boolector_bv_get_width (Boolector_and a _) = boolector_bv_get_width a"
| "boolector_bv_get_width (Boolector_bv_slice _ upper lower) = upper - lower + 1"
| "boolector_bv_get_width (Boolector_roli a _) = boolector_bv_get_width a"
| "boolector_bv_get_width (Boolector_rori a _) = boolector_bv_get_width a"

fun boolector_array_get_index_width :: "BoolectorNode \<Rightarrow> u32" where
  "boolector_array_get_index_width (Boolector_array _ i _) = i"
| "boolector_array_get_index_width _ = 0"

fun fun_domain :: "BoolectorNode \<Rightarrow> u32 list" where
  "fun_domain (Boolector_uf _ d _) = d"
| "fun_domain (Boolector_array _ i _) = [i]"
| "fun_domain _ = []"

definition boolector_is_equal_sort :: "BoolectorNode \<Rightarrow> BoolectorNode \<Rightarrow> bool" where
  "boolector_is_equal_sort a b \<longleftrightarrow>
     boolector_is_array a = boolector_is_array b
     \<and> boolector_is_fun a = boolector_is_fun b
     \<and> fun_domain a = fun_domain b
     \<and> boolector_bv_get_width a = boolector_bv_get_width b"

text \<open>The bits of a constant, most significant first, as \<^verbatim>\<open>'0'\<close> and \<^verbatim>\<open>'1'\<close>.\<close>

fun boolector_get_bits :: "BoolectorNode \<Rightarrow> string" where
  "boolector_get_bits (Boolector_const bits) = bits"
| "boolector_get_bits (Boolector_zero w) = replicate (unat w) (CHR ''0'')"
| "boolector_get_bits _ = []"

text \<open>
  Modelled from the spec: \<^verbatim>\<open>BzlaBitVector\<close> and its helpers (\<^verbatim>\<open>bzlabv.c\<close>) are not
  part of the sources at hand. A bit-vector value is its list of bits, most significant
  first; \<^verbatim>\<open>bzla_bv_char_to_bv\<close> reads a string of \<^verbatim>\<open>'0'\<close> and \<^verbatim>\<open>'1'\<close>,
  \<^verbatim>\<open>bzla_bv_to_char\<close> prints one, \<^verbatim>\<open>bzla_bv_uext\<close> zero-extends at the most significant
  end, \<^verbatim>\<open>bzla_bv_new\<close> is the all-zero vector and \<^verbatim>\<open>bzla_bv_to_uint64\<close> the value.
\<close>

type_synonym BzlaBitVector = "bool list"

definition bzla_bv_char_to_bv :: "string \<Rightarrow> BzlaBitVector" where
  "bzla_bv_char_to_bv s = map (\<lambda>c. c = CHR ''1'') s"

definition bzla_bv_to_char :: "BzlaBitVector \<Rightarrow> string" where
  "bzla_bv_to_char bv = map (\<lambda>b. if b then CHR ''1'' else CHR ''0'') bv"

definition bzla_bv_uext :: "BzlaBitVector \<Rightarrow> nat \<Rightarrow> BzlaBitVector" where
  "bzla_bv_uext bv n = replicate n False @ bv"

definition bzla_bv_new :: "nat \<Rightarrow> BzlaBitVector" where
  "bzla_bv_new n = replicate n False"

definition bzla_bv_to_nat :: "BzlaBitVector \<Rightarrow> nat" where
  "bzla_bv_to_nat bv = foldl (\<lambda>a b. 2 * a + (if b then 1 else 0)) 0 bv"

text \<open>\<^verbatim>\<open>bzla_bv_to_uint64\<close>: the value, in 64 bits.\<close>

definition bzla_bv_to_uint64 :: "BzlaBitVector \<Rightarrow> 64 word" where
  "bzla_bv_to_uint64 bv = of_nat (bzla_bv_to_nat bv)"

text \<open>The value a constant node denotes.\<close>

definition const_value :: "BoolectorNode \<Rightarrow> nat" where
  "const_value e = bzla_bv_to_nat (bzla_bv_char_to_bv (boolector_get_bits e))"

subsection \<open>Errors, tags and work-stack items\<close>

text \<open>
  What a parsing function comes back with: its result, the message handed to
  \<^verbatim>\<open>perr_smt2\<close> (the text built from the format string; the file name and the
  coordinates that \<^verbatim>\<open>perr_smt2\<close> puts in front are left out), or an abort: an
  \<^verbatim>\<open>assert\<close> of the source that fails, or a division by zero.
\<close>

datatype 'a outcome = Ok 'a | Perr string | Aborted

definition sq :: string where
  "sq = [CHR 0x27]"

text \<open>What \<^verbatim>\<open>%u\<close> and \<^verbatim>\<open>%d\<close> print for a number that is not negative.\<close>

fun print_decimal :: "nat \<Rightarrow> string" where
  "print_decimal n =
     (if 10 \<le> n then print_decimal (n div 10) else []) @ [char_of (n mod 10 + 48)]"

declare print_decimal.simps [simp del]

text \<open>The members of \<^verbatim>\<open>BzlaSMT2Tag\<close> that the embedded code tests.\<close>

datatype BzlaSMT2Tag =
    BZLA_INVALID_TAG_SMT2
  | BZLA_LPAR_TAG_SMT2
  | BZLA_RPAR_TAG_SMT2
  | BZLA_SYMBOL_TAG_SMT2
  | BZLA_ATTRIBUTE_TAG_SMT2
  | BZLA_EXP_TAG_SMT2
  | BZLA_DECIMAL_CONSTANT_TAG_SMT2
  | BZLA_REAL_CONSTANT_TAG_SMT2
  | BZLA_UNDERSCORE_TAG_SMT2
  | BZLA_EQUAL_TAG_SMT2
  | BZLA_DISTINCT_TAG_SMT2
  | BZLA_BV_EXTRACT_TAG_SMT2
  | BZLA_BV_ROTATE_LEFT_TAG_SMT2
  | BZLA_BV_ROTATE_RIGHT_TAG_SMT2
  | BZLA_BV_EXT_ROTATE_LEFT_TAG_SMT2
  | BZLA_BV_EXT_ROTATE_RIGHT_TAG_SMT2

text \<open>
  \<^verbatim>\<open>BzlaSMT2Item\<close>: the tag, the indices (\<^verbatim>\<open>num\<close> shares its storage with
  \<^verbatim>\<open>idx0\<close>) and the union of \<^verbatim>\<open>node\<close>, \<^verbatim>\<open>exp\<close>, \<^verbatim>\<open>sort\<close> and \<^verbatim>\<open>str\<close>. Of a
  symbol-table node an item needs its name only. The coordinates are left out.
\<close>

datatype item_payload = No_payload | Node string | Exp BoolectorNode | Str string

record BzlaSMT2Item =
  item_tag :: BzlaSMT2Tag
  idx0 :: u32
  idx1 :: u32
  payload :: item_payload

definition num :: "BzlaSMT2Item \<Rightarrow> u32" where
  "num p = idx0 p"

fun payload_exp :: "item_payload \<Rightarrow> BoolectorNode" where
  "payload_exp (Exp e) = e"

fun payload_name :: "item_payload \<Rightarrow> string" where
  "payload_name (Node n) = n"

definition item_exp :: "BzlaSMT2Item \<Rightarrow> BoolectorNode" where
  "item_exp p = payload_exp (payload p)"

definition item_name :: "BzlaSMT2Item \<Rightarrow> string" where
  "item_name p = payload_name (payload p)"

text \<open>\<^verbatim>\<open>p[i].exp\<close> for the arguments \<^verbatim>\<open>p[1]\<close>, ..., \<^verbatim>\<open>p[nargs]\<close> above an operator item.\<close>

definition arg_exp :: "BzlaSMT2Item list \<Rightarrow> nat \<Rightarrow> BoolectorNode" where
  "arg_exp args i = item_exp (args ! (i - 1))"

text \<open>The first error of a \<^verbatim>\<open>for\<close> loop whose body returns on an error.\<close>

fun first_error :: "(nat \<Rightarrow> string option) \<Rightarrow> nat list \<Rightarrow> string option" where
  "first_error f [] = None"
| "first_error f (i # is) = (case f i of Some e \<Rightarrow> Some e | None \<Rightarrow> first_error f is)"

subsection \<open>Reading 32-bit indices\<close>

definition UINT32_MAX :: nat where
  "UINT32_MAX = 4294967295"

text \<open>
  The loop of \<^verbatim>\<open>str2uint32_smt2\<close>. \<^verbatim>\<open>res\<close> is a \<^verbatim>\<open>uint64_t\<close> that the two guards
  keep at or below \<^verbatim>\<open>UINT32_MAX\<close>, so it never wraps and is a natural number here.
  \<open>None\<close> is the jump to \<^verbatim>\<open>INVALID\<close>.
\<close>

fun str2uint32_loop :: "nat \<Rightarrow> string \<Rightarrow> nat option" where
  "str2uint32_loop res [] = Some res"
| "str2uint32_loop res (ch # p) =
     (if res > UINT32_MAX div 10 \<or> (of_char ch :: nat) < 48 \<or> (of_char ch :: nat) > 57
      then None
      else let res1 = (if res \<noteq> 0 then res * 10 else res);
               digit = (of_char ch :: nat) - 48
           in if UINT32_MAX - digit < res1 then None
              else str2uint32_loop (res1 + digit) p)"

definition str2uint32_smt2 :: "bool \<Rightarrow> string \<Rightarrow> u32 outcome" where
  "str2uint32_smt2 allow_zero str =
     (case str2uint32_loop 0 str of
        None \<Rightarrow> Perr (''invalid 32-bit integer '' @ sq @ str @ sq)
      | Some res \<Rightarrow>
          if \<not> allow_zero \<and> res = 0
          then Perr (''expected positive non-zero 32-bit integer at '' @ sq @ str @ sq)
          else Ok (of_nat res))"

text \<open>
  The lexer as the parsing functions see it: \<^verbatim>\<open>read_token_smt2\<close> takes the next
  token, a tag with the text left in \<^verbatim>\<open>parser->token\<close>, from the tokens still to
  come; no token left is \<^verbatim>\<open>EOF\<close>. A token tagged \<^verbatim>\<open>BZLA_INVALID_TAG_SMT2\<close> is a
  lexical error and carries the lexer's message.
\<close>

type_synonym token = "BzlaSMT2Tag \<times> string"

definition parse_uint32_smt2 :: "bool \<Rightarrow> token list \<Rightarrow> (u32 \<times> token list) outcome" where
  "parse_uint32_smt2 allow_zero toks =
     (case toks of
        [] \<Rightarrow> Perr ''expected decimal constant but reached end-of-file''
      | (tag, text) # rest \<Rightarrow>
          if tag = BZLA_INVALID_TAG_SMT2 then Perr text
          else if tag \<noteq> BZLA_DECIMAL_CONSTANT_TAG_SMT2
          then Perr (''expected decimal constant at '' @ sq @ text @ sq)
          else (case str2uint32_smt2 allow_zero text of
                  Ok res \<Rightarrow> Ok (res, rest)
                | Perr e \<Rightarrow> Perr e
                | Aborted \<Rightarrow> Aborted))"

definition read_rpar_smt2 :: "string \<Rightarrow> token list \<Rightarrow> token list outcome" where
  "read_rpar_smt2 msg toks =
     (case toks of
        [] \<Rightarrow> Perr (''expected '' @ sq @ '')'' @ sq @ msg @ '' at end-of-file'')
      | (tag, text) # rest \<Rightarrow>
          if tag = BZLA_INVALID_TAG_SMT2 then Perr text
          else if tag \<noteq> BZLA_RPAR_TAG_SMT2
          then Perr (''expected '' @ sq @ '')'' @ sq @ msg @ '' at '' @ sq @ text @ sq)
          else Ok rest)"

subsection \<open>Argument checks of \<^verbatim>\<open>close_term\<close>\<close>

text \<open>
  In the checks and reductions below \<open>p\<close> is the operator item \<^verbatim>\<open>item_cur\<close> and
  \<open>args\<close> are the items \<^verbatim>\<open>item_cur[1]\<close>, ..., \<^verbatim>\<open>item_cur[nargs]\<close> above it. A check
  gives \<open>None\<close> where the source returns \<^verbatim>\<open>true\<close> and the error message otherwise.
\<close>

definition check_nargs_smt2 :: "BzlaSMT2Item \<Rightarrow> nat \<Rightarrow> nat \<Rightarrow> string option" where
  "check_nargs_smt2 p actual required =
     (let diff = int actual - int required; op = item_name p
      in if diff = - 1 then Some (''one argument to '' @ sq @ op @ sq @ '' missing'')
         else if diff < 0
         then Some (print_decimal (nat (- diff)) @ '' arguments to '' @ sq @ op @ sq @ '' missing'')
         else if diff = 1 then Some (sq @ op @ sq @ '' has one argument too much'')
         else if diff > 0
         then Some (sq @ op @ sq @ '' has '' @ print_decimal (nat diff) @ '' arguments too much'')
         else None)"

definition check_not_array_or_uf_args_smt2 ::
  "BzlaSMT2Item \<Rightarrow> BzlaSMT2Item list \<Rightarrow> nat \<Rightarrow> string option" where
  "check_not_array_or_uf_args_smt2 p args nargs =
     first_error
       (\<lambda>i. if boolector_is_array (arg_exp args i)
            then Some (''argument '' @ print_decimal i @ '' of '' @ sq @ item_name p @ sq
                       @ '' is an array'')
            else if boolector_is_fun (arg_exp args i)
            then Some (''argument '' @ print_decimal i @ '' of '' @ sq @ item_name p @ sq
                       @ '' is a function'')
            else None)
       [1 ..< Suc nargs]"

definition check_arg_sorts_match_smt2 ::
  "BzlaSMT2Item \<Rightarrow> BzlaSMT2Item list \<Rightarrow> nat \<Rightarrow> nat \<Rightarrow> string option" where
  "check_arg_sorts_match_smt2 p args offset nargs =
     (let j = offset + 1;
          width = boolector_bv_get_width (arg_exp args j);
          name = sq @ item_name p @ sq
      in if boolector_is_array (arg_exp args j)
         then (let domain = boolector_array_get_index_width (arg_exp args j)
               in first_error
                    (\<lambda>i. if \<not> boolector_is_array (arg_exp args i)
                         then Some (''first argument of '' @ name @ '' is an array but argument ''
                                    @ print_decimal i @ '' is not'')
                         else if boolector_bv_get_width (arg_exp args i) \<noteq> width
                         then Some (''first argument of '' @ name
                                    @ '' is an array of bit-vectors of width ''
                                    @ print_decimal (unat width) @ '' but argument ''
                                    @ print_decimal i @ '' is an array of bit-vectors of width ''
                                    @ print_decimal (unat (boolector_bv_get_width (arg_exp args i))))
                         else if boolector_array_get_index_width (arg_exp args i) \<noteq> domain
                         then Some (''first argument of '' @ name
                                    @ '' is an array with index bit-vectors of width ''
                                    @ print_decimal (unat domain) @ '' but argument ''
                                    @ print_decimal i
                                    @ '' is an array with index bit-vectors of width ''
                                    @ print_decimal
                                        (unat (boolector_array_get_index_width (arg_exp args i))))
                         else None)
                    [j + 1 ..< Suc nargs])
         else if boolector_is_fun (arg_exp args j)
         then first_error
                (\<lambda>i. if \<not> boolector_is_fun (arg_exp args i)
                     then Some (''first argument of '' @ name @ '' is a function but argument ''
                                @ print_decimal i @ '' not'')
                     else if \<not> boolector_is_equal_sort (arg_exp args 1) (arg_exp args i)
                     then Some (''sort of argument '' @ print_decimal i
                                @ '' does not match with sort of first argument of '' @ name)
                     else None)
                [j + 1 ..< Suc nargs]
         else first_error
                (\<lambda>i. if boolector_is_array (arg_exp args i)
                     then Some (''argument '' @ print_decimal i @ '' of '' @ name
                                @ '' is an array but first argument not'')
                     else if boolector_is_fun (arg_exp args i)
                     then Some (''argument '' @ print_decimal i @ '' of '' @ name
                                @ '' is a function but first argument not'')
                     else if boolector_bv_get_width (arg_exp args i) \<noteq> width
                     then Some (''first argument of '' @ name @ '' is bit-vector of width ''
                                @ print_decimal (unat width) @ '' but argument ''
                                @ print_decimal i @ '' is a bit-vector of width ''
                                @ print_decimal (unat (boolector_bv_get_width (arg_exp args i))))
                     else None)
                [j ..< Suc nargs])"

subsection \<open>Reductions of \<^verbatim>\<open>close_term\<close>\<close>

text \<open>The branch for \<^verbatim>\<open>BZLA_EQUAL_TAG_SMT2\<close>.\<close>

definition close_term_equal :: "BzlaSMT2Item \<Rightarrow> BzlaSMT2Item list \<Rightarrow> BoolectorNode outcome" where
  "close_term_equal p args =
     (let nargs = length args
      in if nargs = 0 then Perr (''arguments to '' @ sq @ ''='' @ sq @ '' missing'')
         else if nargs = 1 then Perr (''only one argument to '' @ sq @ ''='' @ sq)
         else (case check_arg_sorts_match_smt2 p args 0 nargs of
                 Some e \<Rightarrow> Perr e
               | None \<Rightarrow>
                   Ok (foldl (\<lambda>exp i. Boolector_and exp
                                        (Boolector_eq (arg_exp args (i - 1)) (arg_exp args i)))
                         (Boolector_eq (arg_exp args 1) (arg_exp args 2))
                         [3 ..< Suc nargs])))"

text \<open>
  The branch for \<^verbatim>\<open>BZLA_DISTINCT_TAG_SMT2\<close>: \<^verbatim>\<open>exp\<close> starts as the null pointer
  (\<open>None\<close>) and the two nested loops run over the pairs \<open>i < j\<close>.
\<close>

definition distinct_pairs :: "nat \<Rightarrow> (nat \<times> nat) list" where
  "distinct_pairs nargs = concat (map (\<lambda>i. map (\<lambda>j. (i, j)) [i + 1 ..< Suc nargs]) [1 ..< nargs])"

definition close_term_distinct ::
  "BzlaSMT2Item \<Rightarrow> BzlaSMT2Item list \<Rightarrow> BoolectorNode outcome" where
  "close_term_distinct p args =
     (let nargs = length args
      in if nargs = 0 then Perr (''arguments to '' @ sq @ ''distinct'' @ sq @ '' missing'')
         else if nargs = 1 then Perr (''only one argument to '' @ sq @ ''distinct'' @ sq)
         else (case check_arg_sorts_match_smt2 p args 0 nargs of
                 Some e \<Rightarrow> Perr e
               | None \<Rightarrow>
                   (case foldl (\<lambda>exp (i, j).
                                  let tmp = Boolector_ne (arg_exp args i) (arg_exp args j)
                                  in (case exp of
                                        Some old \<Rightarrow> Some (Boolector_and old tmp)
                                      | None \<Rightarrow> Some tmp))
                           None (distinct_pairs nargs) of
                      None \<Rightarrow> Aborted
                    | Some exp \<Rightarrow> Ok exp)))"

text \<open>The branch for \<^verbatim>\<open>BZLA_BV_EXTRACT_TAG_SMT2\<close>.\<close>

definition close_term_extract ::
  "BzlaSMT2Item \<Rightarrow> BzlaSMT2Item list \<Rightarrow> BoolectorNode outcome" where
  "close_term_extract p args =
     (let nargs = length args
      in case check_nargs_smt2 p nargs 1 of
           Some e \<Rightarrow> Perr e
         | None \<Rightarrow>
             (case check_not_array_or_uf_args_smt2 p args nargs of
                Some e \<Rightarrow> Perr e
              | None \<Rightarrow>
                  (let width = boolector_bv_get_width (arg_exp args 1)
                   in if width \<le> idx0 p
                      then Perr (''first (high) 'extract' parameter ''
                                 @ print_decimal (unat (idx0 p))
                                 @ '' too large for bit-vector argument of bit-width ''
                                 @ print_decimal (unat width))
                      else Ok (Boolector_bv_slice (arg_exp args 1) (idx0 p) (idx1 p)))))"

text \<open>
  \<^verbatim>\<open>close_term_rotate_bv_fun\<close>; \<open>f\<close> is \<^verbatim>\<open>boolector_roli\<close> or \<^verbatim>\<open>boolector_rori\<close>.
  The remainder by a zero width is a division by zero.
\<close>

definition close_term_rotate_bv_fun ::
  "BzlaSMT2Item \<Rightarrow> BzlaSMT2Item list \<Rightarrow> (BoolectorNode \<Rightarrow> u32 \<Rightarrow> BoolectorNode)
   \<Rightarrow> BoolectorNode outcome" where
  "close_term_rotate_bv_fun p args f =
     (let nargs = length args
      in case check_nargs_smt2 p nargs 1 of
           Some e \<Rightarrow> Perr e
         | None \<Rightarrow>
             (case check_not_array_or_uf_args_smt2 p args nargs of
                Some e \<Rightarrow> Perr e
              | None \<Rightarrow>
                  (let width = boolector_bv_get_width (arg_exp args 1)
                   in if width = 0 then Aborted
                      else Ok (f (arg_exp args 1) (num p mod width)))))"

text \<open>
  \<^verbatim>\<open>translate_ext_rotate_smt2\<close>. With \<open>ndebug\<close> the assertions are compiled out and
  the shift goes to the backend as it is; without, a shift that is not below the width
  aborts.
\<close>

definition translate_ext_rotate_smt2 ::
  "bool \<Rightarrow> BoolectorNode \<Rightarrow> BoolectorNode \<Rightarrow> bool \<Rightarrow> BoolectorNode outcome" where
  "translate_ext_rotate_smt2 ndebug exp shift is_left =
     (if \<not> ndebug \<and> \<not> boolector_is_const shift then Aborted
      else let shift_width_bv = bzla_bv_char_to_bv (boolector_get_bits shift);
               shift_width = (ucast (bzla_bv_to_uint64 shift_width_bv) :: u32)
           in if \<not> ndebug \<and> \<not> shift_width < boolector_bv_get_width exp then Aborted
              else Ok (if is_left then Boolector_roli exp shift_width
                       else Boolector_rori exp shift_width))"

text \<open>
  The branch for \<^verbatim>\<open>BZLA_BV_EXT_ROTATE_LEFT_TAG_SMT2\<close> and
  \<^verbatim>\<open>BZLA_BV_EXT_ROTATE_RIGHT_TAG_SMT2\<close>. The message reads the name of the second
  argument through the \<^verbatim>\<open>node\<close> member of an item that holds an \<^verbatim>\<open>exp\<close>; what
  \<^verbatim>\<open>%s\<close> prints there is not modelled and the name is left empty.
\<close>

definition close_term_ext_rotate ::
  "bool \<Rightarrow> BzlaSMT2Item \<Rightarrow> BzlaSMT2Item list \<Rightarrow> BoolectorNode outcome" where
  "close_term_ext_rotate ndebug p args =
     (let nargs = length args; tag = item_tag p
      in case check_nargs_smt2 p nargs 2 of
           Some e \<Rightarrow> Perr e
         | None \<Rightarrow>
             (case check_not_array_or_uf_args_smt2 p args nargs of
                Some e \<Rightarrow> Perr e
              | None \<Rightarrow>
                  if \<not> boolector_is_const (arg_exp args 2)
                  then Perr (''second argument '' @ sq @ sq @ '' of ext_rotate_''
                             @ (if tag = BZLA_BV_EXT_ROTATE_LEFT_TAG_SMT2 then ''left''
                                else ''right'')
                             @ ''is not a bit vector constant'')
                  else translate_ext_rotate_smt2 ndebug (arg_exp args 1) (arg_exp args 2)
                         (tag = BZLA_BV_EXT_ROTATE_LEFT_TAG_SMT2)))"

text \<open>
  What the specification says the two core operators mean: \<^verbatim>\<open>(= x1 ... xn)\<close> is the
  conjunction of the equalities of consecutive arguments, \<^verbatim>\<open>(distinct x1 ... xn)\<close> the
  conjunction of the disequalities of all pairs \<open>i < j\<close>. A conjunction of a list is
  nested to the left, as the source builds it.
\<close>

definition spec_conjunction :: "BoolectorNode list \<Rightarrow> BoolectorNode" where
  "spec_conjunction xs = foldl Boolector_and (hd xs) (tl xs)"

definition spec_chain_equalities :: "BoolectorNode list \<Rightarrow> BoolectorNode list" where
  "spec_chain_equalities es = map (\<lambda>i. Boolector_eq (es ! i) (es ! Suc i)) [0 ..< length es - 1]"

definition spec_pairwise_disequalities :: "BoolectorNode list \<Rightarrow> BoolectorNode list" where
  "spec_pairwise_disequalities es =
     concat (map (\<lambda>i. map (\<lambda>j. Boolector_ne (es ! i) (es ! j)) [Suc i ..< length es])
               [0 ..< length es])"

text \<open>
  \<^verbatim>\<open>close_term\<close> from \<^verbatim>\<open>item_open = last_lpar_smt2(parser)\<close> on, as a function of the
  work stack (bottom first), for the operators whose branch is embedded above; for any
  other operator the result is \<open>None\<close>. \<open>below\<close> ends with \<^verbatim>\<open>item_open\<close>, the last
  \<^verbatim>\<open>BZLA_LPAR_TAG_SMT2\<close> item, and \<open>above\<close> is \<^verbatim>\<open>item_cur\<close> with its arguments.
  \<^verbatim>\<open>release_exp_and_overwrite\<close> turns \<^verbatim>\<open>item_open\<close> into the expression item and
  drops what is above it. The counter \<^verbatim>\<open>parser->open\<close> is not part of the model.
\<close>

definition release_exp_and_overwrite ::
  "BzlaSMT2Item list \<Rightarrow> BoolectorNode \<Rightarrow> BzlaSMT2Item list" where
  "release_exp_and_overwrite below exp =
     butlast below @ [(last below)\<lparr>item_tag := BZLA_EXP_TAG_SMT2, payload := Exp exp\<rparr>]"

definition close_term :: "bool \<Rightarrow> BzlaSMT2Item list \<Rightarrow> BzlaSMT2Item list outcome option" where
  "close_term ndebug work =
     (let above = rev (takeWhile (\<lambda>q. item_tag q \<noteq> BZLA_LPAR_TAG_SMT2) (rev work));
          below = rev (dropWhile (\<lambda>q. item_tag q \<noteq> BZLA_LPAR_TAG_SMT2) (rev work))
      in if below = [] then Some Aborted
         else (case above of
                 [] \<Rightarrow> Some (Perr (''unexpected '' @ sq @ ''()'' @ sq))
               | item_cur # args \<Rightarrow>
                   (let tag = item_tag item_cur
                    in if tag \<noteq> BZLA_EQUAL_TAG_SMT2 \<and> tag \<noteq> BZLA_DISTINCT_TAG_SMT2
                          \<and> tag \<noteq> BZLA_BV_EXTRACT_TAG_SMT2
                          \<and> tag \<noteq> BZLA_BV_ROTATE_LEFT_TAG_SMT2
                          \<and> tag \<noteq> BZLA_BV_ROTATE_RIGHT_TAG_SMT2
                          \<and> tag \<noteq> BZLA_BV_EXT_ROTATE_LEFT_TAG_SMT2
                          \<and> tag \<noteq> BZLA_BV_EXT_ROTATE_RIGHT_TAG_SMT2
                       then None
                       else if \<not> list_all (\<lambda>a. item_tag a = BZLA_EXP_TAG_SMT2) args
                       then Some (Perr ''expected expression'')
                       else (case (if tag = BZLA_EQUAL_TAG_SMT2
                                   then close_term_equal item_cur args
                                   else if tag = BZLA_DISTINCT_TAG_SMT2
                                   then close_term_distinct item_cur args
                                   else if tag = BZLA_BV_EXTRACT_TAG_SMT2
                                   then close_term_extract item_cur args
                                   else if tag = BZLA_BV_ROTATE_LEFT_TAG_SMT2
                                   then close_term_rotate_bv_fun item_cur args Boolector_roli
                                   else if tag = BZLA_BV_ROTATE_RIGHT_TAG_SMT2
                                   then close_term_rotate_bv_fun item_cur args Boolector_rori
                                   else close_term_ext_rotate ndebug item_cur args) of
                               Ok exp \<Rightarrow> Some (Ok (release_exp_and_overwrite below exp))
                             | Perr e \<Rightarrow> Some (Perr e)
                             | Aborted \<Rightarrow> Some Aborted))))"

subsection \<open>Indexed terms: \<^verbatim>\<open>parse_open_term_indexed\<close>\<close>

definition is_item_with_node_smt2 :: "BzlaSMT2Item \<Rightarrow> bool" where
  "is_item_with_node_smt2 item \<longleftrightarrow>
     item_tag item \<notin> {BZLA_INVALID_TAG_SMT2, BZLA_LPAR_TAG_SMT2, BZLA_RPAR_TAG_SMT2,
                      BZLA_EXP_TAG_SMT2, BZLA_DECIMAL_CONSTANT_TAG_SMT2,
                      BZLA_REAL_CONSTANT_TAG_SMT2}"

definition item2str_smt2 :: "BzlaSMT2Item \<Rightarrow> string" where
  "item2str_smt2 item =
     (if is_item_with_node_smt2 item
      then (case payload item of Node n \<Rightarrow> n | _ \<Rightarrow> ''<zero-node-item>'')
      else if item_tag item \<in> {BZLA_DECIMAL_CONSTANT_TAG_SMT2, BZLA_REAL_CONSTANT_TAG_SMT2}
      then (case payload item of Str s \<Rightarrow> s | _ \<Rightarrow> [])
      else ''<non-printable-item>'')"

definition check_open_term_indexed :: "BzlaSMT2Item list \<Rightarrow> string \<Rightarrow> string option" where
  "check_open_term_indexed work name =
     (if length work < 3
      then Some (''expected '' @ sq @ ''('' @ sq @ '' before '' @ sq @ ''(_ '' @ name @ sq)
      else if item_tag (work ! (length work - 3)) \<noteq> BZLA_LPAR_TAG_SMT2
      then Some (''expected '' @ sq @ ''('' @ sq @ '' at '' @ sq
                 @ item2str_smt2 (work ! (length work - 3)) @ sq
                 @ '' before '' @ sq @ ''(_ '' @ name @ sq)
      else None)"

text \<open>
  \<^verbatim>\<open>parse_open_term_indexed_parametric\<close>. The work stack ends with \<^verbatim>\<open>item_open\<close> and
  \<^verbatim>\<open>item_cur\<close> (the \<^verbatim>\<open>_\<close> item); \<open>name\<close> is \<^verbatim>\<open>node->name\<close>. On success
  \<^verbatim>\<open>item_open\<close> has become the operator item, \<^verbatim>\<open>item_cur\<close> is dropped and the closing
  parenthesis is read.
\<close>

definition parse_open_term_indexed_parametric ::
  "BzlaSMT2Item list \<Rightarrow> token list \<Rightarrow> BzlaSMT2Tag \<Rightarrow> nat \<Rightarrow> string \<Rightarrow> string
   \<Rightarrow> (BzlaSMT2Item list \<times> token list) outcome" where
  "parse_open_term_indexed_parametric work toks tag nargs name msg =
     (case check_open_term_indexed work name of
        Some e \<Rightarrow> Perr e
      | None \<Rightarrow>
          (let item_open = work ! (length work - 2);
               finish = (\<lambda>item toks'.
                  case read_rpar_smt2 msg toks' of
                    Ok rest \<Rightarrow>
                      Ok (take (length work - 2) work
                            @ [item\<lparr>item_tag := tag, payload := Node name\<rparr>], rest)
                  | Perr e \<Rightarrow> Perr e
                  | Aborted \<Rightarrow> Aborted)
           in if nargs = 1
              then (case parse_uint32_smt2 True toks of
                      Ok (n, toks1) \<Rightarrow> finish (item_open\<lparr>idx0 := n\<rparr>) toks1
                    | Perr e \<Rightarrow> Perr e
                    | Aborted \<Rightarrow> Aborted)
              else (case parse_uint32_smt2 True toks of
                      Ok (i0, toks1) \<Rightarrow>
                        (case parse_uint32_smt2 True toks1 of
                           Ok (i1, toks2) \<Rightarrow>
                             if tag = BZLA_BV_EXTRACT_TAG_SMT2 \<and> i0 < i1
                             then Perr (''first parameter '' @ sq @ print_decimal (unat i0) @ sq
                                        @ '' of '' @ sq @ ''(_ extract'' @ sq
                                        @ '' smaller than second '' @ sq
                                        @ print_decimal (unat i1) @ sq)
                             else finish (item_open\<lparr>idx0 := i0, idx1 := i1\<rparr>) toks2
                         | Perr e \<Rightarrow> Perr e
                         | Aborted \<Rightarrow> Aborted)
                    | Perr e \<Rightarrow> Perr e
                    | Aborted \<Rightarrow> Aborted)))"

definition isdigit :: "char \<Rightarrow> bool" where
  "isdigit c \<longleftrightarrow> 48 \<le> (of_char c :: nat) \<and> (of_char c :: nat) \<le> 57"

definition is_bvconst_str_smt2 :: "string \<Rightarrow> bool" where
  "is_bvconst_str_smt2 str =
     (case str of
        c0 # c1 # c2 # p \<Rightarrow> c0 = CHR ''b'' \<and> c1 = CHR ''v'' \<and> isdigit c2 \<and> list_all isdigit p
      | _ \<Rightarrow> False)"

text \<open>
  Modelled from the spec: \<^verbatim>\<open>bzla_util_dec_to_bin_str\<close> (\<^verbatim>\<open>bzlautil.c\<close>) is not part
  of the sources at hand. "The decimal is converted to binary": the result is the
  binary numeral of the decimal string's value without leading zeros, which for zero is
  the empty string (the source tests for it with \<^verbatim>\<open>!width2\<close>).
\<close>

definition dec_str_to_nat :: "string \<Rightarrow> nat" where
  "dec_str_to_nat s = foldl (\<lambda>a c. 10 * a + ((of_char c :: nat) - 48)) 0 s"

fun bin_str_of_nat :: "nat \<Rightarrow> string" where
  "bin_str_of_nat n =
     (if n = 0 then []
      else bin_str_of_nat (n div 2) @ [if odd n then CHR ''1'' else CHR ''0''])"

declare bin_str_of_nat.simps [simp del]

definition bzla_util_dec_to_bin_str :: "string \<Rightarrow> string" where
  "bzla_util_dec_to_bin_str s = bin_str_of_nat (dec_str_to_nat s)"

text \<open>
  The branch of \<^verbatim>\<open>parse_open_term_indexed\<close> for \<^verbatim>\<open>(_ bvK n)\<close>, from the token
  \<^verbatim>\<open>bvK\<close> (its text is \<open>text\<close>) up to the expression \<^verbatim>\<open>exp\<close>. \<^verbatim>\<open>width2\<close> is the
  length of the binary string, which the source narrows from \<^verbatim>\<open>size_t\<close> to
  \<^verbatim>\<open>uint32_t\<close>; a numeral of 2^32 bits is out of reach and the length is a natural
  number here.
\<close>

definition bvconst_exp :: "string \<Rightarrow> token list \<Rightarrow> (BoolectorNode \<times> token list) outcome" where
  "bvconst_exp text toks =
     (let decstr = drop 2 text;
          constr = bzla_util_dec_to_bin_str (drop 2 text)
      in case parse_uint32_smt2 False toks of
           Perr e \<Rightarrow> Perr e
         | Aborted \<Rightarrow> Aborted
         | Ok (width, rest) \<Rightarrow>
             (let width2 = length constr
              in if width2 > unat width
                 then Perr (''decimal constant '' @ sq @ decstr @ sq @ '' needs ''
                            @ print_decimal width2 @ '' bits which exceeds bit-width '' @ sq
                            @ print_decimal (unat width) @ sq)
                 else if width2 = unat width then Ok (Boolector_const constr, rest)
                 else if width2 = 0 then Ok (Boolector_zero width, rest)
                 else (let uconstrbv =
                             (if constr = [] then bzla_bv_new (unat width - width2)
                              else bzla_bv_uext (bzla_bv_char_to_bv constr)
                                     (unat width - width2))
                       in Ok (Boolector_const (bzla_bv_to_char uconstrbv), rest))))"

text \<open>
  \<^verbatim>\<open>parse_open_term_indexed\<close> for the tokens among \<^verbatim>\<open>BzlaSMT2Tag\<close> above: the work
  stack ends with \<^verbatim>\<open>item_cur\<close>, the \<^verbatim>\<open>_\<close> item.
\<close>

definition parse_open_term_indexed ::
  "BzlaSMT2Item list \<Rightarrow> token list \<Rightarrow> (BzlaSMT2Item list \<times> token list) outcome" where
  "parse_open_term_indexed work toks =
     (if \<not> (length work \<ge> 2 \<and> item_tag (work ! (length work - 2)) = BZLA_LPAR_TAG_SMT2)
      then Perr (''expected '' @ sq @ ''('' @ sq @ '' before '' @ sq @ ''_'' @ sq)
      else (case toks of
              [] \<Rightarrow> Perr (''unexpected end-of-file after '' @ sq @ ''_'' @ sq)
            | (tag, text) # rest \<Rightarrow>
                if tag = BZLA_INVALID_TAG_SMT2 then Perr text
                else if tag = BZLA_BV_ROTATE_LEFT_TAG_SMT2
                then parse_open_term_indexed_parametric work rest tag 1 text
                       ('' to close '' @ sq @ ''(_ rotate_left'' @ sq)
                else if tag = BZLA_BV_ROTATE_RIGHT_TAG_SMT2
                then parse_open_term_indexed_parametric work rest tag 1 text
                       ('' to close '' @ sq @ ''(_ rotate_right'' @ sq)
                else if tag = BZLA_BV_EXTRACT_TAG_SMT2
                then parse_open_term_indexed_parametric work rest tag 2 text
                       ('' to close '' @ sq @ ''(_ extract'' @ sq)
                else if tag = BZLA_SYMBOL_TAG_SMT2 \<and> is_bvconst_str_smt2 text
                then (case bvconst_exp text rest of
                        Perr e \<Rightarrow> Perr e
                      | Aborted \<Rightarrow> Aborted
                      | Ok (exp, rest1) \<Rightarrow>
                          (let item_cur = work ! (length work - 2);
                               work1 = take (length work - 2) work
                                  @ [item_cur\<lparr>item_tag := BZLA_EXP_TAG_SMT2, payload := Exp exp\<rparr>]
                           in case read_rpar_smt2
                                     ('' to close '' @ sq @ ''(_ bv..'' @ sq) rest1 of
                                Ok rest2 \<Rightarrow> Ok (work1, rest2)
                              | Perr e \<Rightarrow> Perr e
                              | Aborted \<Rightarrow> Aborted))
                else Perr (''invalid parametric term '' @ sq @ ''_ '' @ text @ sq)))"

subsection \<open>Symbol table\<close>

text \<open>
  \<^verbatim>\<open>BzlaSMT2Node\<close>, an entry of the symbol table: the tag, the name and the scope level
  at which \<^verbatim>\<open>new_node_smt2\<close> created it. \<open>node_id\<close> stands for the address of the
  node: the table holds pointers and \<^verbatim>\<open>remove_symbol_smt2\<close> compares them. The fields
  \<^verbatim>\<open>bound\<close>, \<^verbatim>\<open>sort\<close>, \<^verbatim>\<open>coo\<close>, \<^verbatim>\<open>exp\<close> and \<^verbatim>\<open>sort_alias\<close> play no part in the
  table operations and are left out; \<^verbatim>\<open>next\<close> is the rest of the chain the node is in.
\<close>

record BzlaSMT2Node =
  node_id :: nat
  node_tag :: BzlaSMT2Tag
  node_name :: string
  node_scope_level :: nat

text \<open>
  The calls to the backend's assertion stack, most recent first. (The backend is not
  part of the sources at hand; what the parser asks of it is recorded.)
\<close>

datatype backend_call = Boolector_push nat | Boolector_pop nat

text \<open>
  The fields of \<^verbatim>\<open>BzlaSMT2Parser\<close> behind the symbol table and the scopes.
  \<^verbatim>\<open>symbol.table\<close> is the array of \<^verbatim>\<open>symbol.size\<close> collision chains, each chain the
  list of its nodes from the head on. \<^verbatim>\<open>scope_level\<close> is a \<^verbatim>\<open>uint32_t\<close> whose
  increment wraps, as written out in \<open>open_new_scope\<close>. \<^verbatim>\<open>symbol.size\<close> and
  \<^verbatim>\<open>symbol.count\<close> are \<^verbatim>\<open>uint32_t\<close> too, but the doubling of the size wraps only
  with 2^31 entries in the table, and they are natural numbers here.
\<close>

record BzlaSMT2Parser =
  scope_level :: nat
  symbol_size :: nat
  symbol_count :: nat
  symbol_table :: "BzlaSMT2Node list list"
  global_declarations :: bool
  backend_calls :: "backend_call list"

definition bzla_primes_smt2 :: "u32 list" where
  "bzla_primes_smt2 = [1000000007, 2000000011, 3000000019, 4000000007]"

definition BZLA_NPRIMES_SMT2 :: nat where
  "BZLA_NPRIMES_SMT2 = 4"

text \<open>\<^verbatim>\<open>name[0] == '|' && name[len - 1] == '|'\<close>; the empty name fails the first test.\<close>

definition is_quoted :: "string \<Rightarrow> bool" where
  "is_quoted name \<longleftrightarrow> name \<noteq> [] \<and> hd name = CHR ''|'' \<and> last name = CHR ''|''"

text \<open>
  \<^verbatim>\<open>res += name[pos]\<close> adds a \<^verbatim>\<open>char\<close> to a \<^verbatim>\<open>uint32_t\<close>; \<^verbatim>\<open>char\<close> is taken as
  signed, as on x86, so that a byte above 127 is sign-extended.
\<close>

definition char_to_u32 :: "char \<Rightarrow> u32" where
  "char_to_u32 c = scast (of_char c :: 8 word)"

text \<open>The loop of \<^verbatim>\<open>hash_name_smt2\<close> over the characters from \<^verbatim>\<open>pos\<close> up to \<^verbatim>\<open>len\<close>.\<close>

fun hash_loop :: "u32 \<Rightarrow> nat \<Rightarrow> string \<Rightarrow> u32" where
  "hash_loop res i [] = res"
| "hash_loop res i (c # cs) =
     hash_loop ((res + char_to_u32 c) * bzla_primes_smt2 ! i)
       (if Suc i = BZLA_NPRIMES_SMT2 then 0 else Suc i) cs"

definition hash_name_smt2 :: "nat \<Rightarrow> string \<Rightarrow> nat" where
  "hash_name_smt2 table_size name =
     (let len = length name;
          pos = (if is_quoted name then 1 else 0);
          len = (if is_quoted name then len - 1 else len)
      in unat (hash_loop 0 0 (drop pos (take len name)) AND (of_nat table_size - 1)))"

text \<open>The value of \<^verbatim>\<open>res\<close> at the end of the loop, before it is masked with the table size.\<close>

definition name_hash :: "string \<Rightarrow> u32" where
  "name_hash name =
     hash_loop 0 0 (drop (if is_quoted name then 1 else 0)
                      (take (if is_quoted name then length name - 1 else length name) name))"

text \<open>
  The three comparisons in the loop of \<^verbatim>\<open>find_symbol_smt2\<close>, for the name \<open>s\<close> of a
  node against \<open>name\<close>. \<^verbatim>\<open>strncmp\<close> over \<open>n\<close> characters compares the first \<open>n\<close>
  characters of two strings, and the \<^verbatim>\<open>size_t\<close> difference \<^verbatim>\<open>len - 2\<close> of a length
  below 2 wraps to a value that no length equals.
\<close>

definition same_symbol_name :: "string \<Rightarrow> string \<Rightarrow> bool" where
  "same_symbol_name s name =
     (let len_name = length name; name_quoted = is_quoted name;
          len_s = length s; s_quoted = is_quoted s
      in if s_quoted = name_quoted then s = name
         else if s_quoted
         then int len_s - 2 = int len_name \<and> take len_name (drop 1 s) = take len_name name
         else if name_quoted
         then int len_name - 2 = int len_s \<and> take len_s s = take len_s (drop 1 name)
         else False)"

definition find_symbol_smt2 :: "BzlaSMT2Parser \<Rightarrow> string \<Rightarrow> BzlaSMT2Node option" where
  "find_symbol_smt2 parser name =
     (if symbol_size parser = 0 then None
      else let h = hash_name_smt2 (symbol_size parser) name
           in List.find (\<lambda>s. same_symbol_name (node_name s) name) (symbol_table parser ! h))"

text \<open>
  \<^verbatim>\<open>enlarge_symbol_table_smt2\<close>: the nodes of each old chain are pushed on a stack from
  the head on, then popped and put at the head of their chain in the new table.
\<close>

definition rehash_node :: "nat \<Rightarrow> BzlaSMT2Node list list \<Rightarrow> BzlaSMT2Node \<Rightarrow> BzlaSMT2Node list list" where
  "rehash_node new_size table p =
     (let h = hash_name_smt2 new_size (node_name p) in table[h := p # table ! h])"

definition rehash_chain ::
  "nat \<Rightarrow> BzlaSMT2Node list list \<Rightarrow> BzlaSMT2Node list \<Rightarrow> BzlaSMT2Node list list" where
  "rehash_chain new_size table chain = foldl (rehash_node new_size) table (rev chain)"

definition enlarge_symbol_table_smt2 :: "BzlaSMT2Parser \<Rightarrow> BzlaSMT2Parser" where
  "enlarge_symbol_table_smt2 parser =
     (let old_size = symbol_size parser;
          new_size = (if old_size \<noteq> 0 then 2 * old_size else 1);
          old_table = symbol_table parser
      in parser\<lparr>symbol_size := new_size,
                symbol_table := foldl (rehash_chain new_size) (replicate new_size [])
                                  (take old_size old_table)\<rparr>)"

definition insert_symbol_smt2 :: "BzlaSMT2Parser \<Rightarrow> BzlaSMT2Node \<Rightarrow> BzlaSMT2Parser" where
  "insert_symbol_smt2 parser symbol =
     (let parser = (if symbol_size parser \<le> symbol_count parser
                    then enlarge_symbol_table_smt2 parser else parser);
          h = hash_name_smt2 (symbol_size parser) (node_name symbol);
          p = symbol_table parser ! h
      in parser\<lparr>symbol_table := (symbol_table parser)[h := symbol # p],
                symbol_count := symbol_count parser + 1\<rparr>)"

definition new_node_smt2 :: "BzlaSMT2Parser \<Rightarrow> nat \<Rightarrow> BzlaSMT2Tag \<Rightarrow> string \<Rightarrow> BzlaSMT2Node" where
  "new_node_smt2 parser address tag name =
     \<lparr>node_id = address, node_tag = tag, node_name = name,
      node_scope_level = scope_level parser\<rparr>"

text \<open>
  \<^verbatim>\<open>remove_symbol_smt2\<close>: the chain is walked up to the node itself (the same pointer),
  which is unlinked. A node that is not in its chain fails \<^verbatim>\<open>assert (*p == symbol)\<close>.
\<close>

definition remove_symbol_smt2 :: "BzlaSMT2Parser \<Rightarrow> BzlaSMT2Node \<Rightarrow> BzlaSMT2Parser outcome" where
  "remove_symbol_smt2 parser symbol =
     (let h = hash_name_smt2 (symbol_size parser) (node_name symbol)
      in if symbol_size parser = 0 then Aborted
         else (case dropWhile (\<lambda>s. node_name s \<noteq> node_name symbol \<or> node_id s \<noteq> node_id symbol)
                      (symbol_table parser ! h) of
                 [] \<Rightarrow> Aborted
               | s # next \<Rightarrow>
                   if symbol_count parser = 0 then Aborted
                   else Ok (parser\<lparr>symbol_table := (symbol_table parser)
                                [h := takeWhile (\<lambda>s. node_name s \<noteq> node_name symbol
                                                     \<or> node_id s \<noteq> node_id symbol)
                                        (symbol_table parser ! h) @ next],
                              symbol_count := symbol_count parser - 1\<rparr>)))"

definition open_new_scope :: "BzlaSMT2Parser \<Rightarrow> BzlaSMT2Parser" where
  "open_new_scope parser = parser\<lparr>scope_level := (scope_level parser + 1) mod 2 ^ 32\<rparr>"

text \<open>
  \<^verbatim>\<open>close_current_scope\<close>. The inner loop reads \<^verbatim>\<open>node->next\<close> before it removes
  \<^verbatim>\<open>node\<close>, so it visits the nodes that chain \<open>i\<close> had when the loop reached it.
\<close>

fun close_chain :: "BzlaSMT2Parser \<Rightarrow> BzlaSMT2Node list \<Rightarrow> BzlaSMT2Parser outcome" where
  "close_chain parser [] = Ok parser"
| "close_chain parser (node # next) =
     (if node_scope_level node = scope_level parser
      then (case remove_symbol_smt2 parser node of
              Ok parser' \<Rightarrow> close_chain parser' next
            | Perr e \<Rightarrow> Perr e
            | Aborted \<Rightarrow> Aborted)
      else close_chain parser next)"

fun close_chains :: "BzlaSMT2Parser \<Rightarrow> nat list \<Rightarrow> BzlaSMT2Parser outcome" where
  "close_chains parser [] = Ok parser"
| "close_chains parser (i # is) =
     (case close_chain parser (symbol_table parser ! i) of
        Ok parser' \<Rightarrow> close_chains parser' is
      | Perr e \<Rightarrow> Perr e
      | Aborted \<Rightarrow> Aborted)"

definition close_current_scope :: "BzlaSMT2Parser \<Rightarrow> BzlaSMT2Parser outcome" where
  "close_current_scope parser =
     (case (if \<not> global_declarations parser
            then close_chains parser [0 ..< symbol_size parser]
            else Ok parser) of
        Ok parser' \<Rightarrow>
          Ok (parser'\<lparr>scope_level := (if scope_level parser' = 0 then 2 ^ 32 - 1
                                       else scope_level parser' - 1)\<rparr>)
      | Perr e \<Rightarrow> Perr e
      | Aborted \<Rightarrow> Aborted)"

text \<open>
  The cases \<^verbatim>\<open>BZLA_PUSH_TAG_SMT2\<close> and \<^verbatim>\<open>BZLA_POP_TAG_SMT2\<close> of \<^verbatim>\<open>read_command_smt2\<close>,
  after the number \<^verbatim>\<open>level\<close> and the closing parenthesis have been read.
\<close>

fun open_scopes :: "nat \<Rightarrow> BzlaSMT2Parser \<Rightarrow> BzlaSMT2Parser" where
  "open_scopes 0 parser = parser"
| "open_scopes (Suc n) parser = open_scopes n (open_new_scope parser)"

fun close_scopes :: "nat \<Rightarrow> BzlaSMT2Parser \<Rightarrow> BzlaSMT2Parser outcome" where
  "close_scopes 0 parser = Ok parser"
| "close_scopes (Suc n) parser =
     (case close_current_scope parser of
        Ok parser' \<Rightarrow> close_scopes n parser'
      | Perr e \<Rightarrow> Perr e
      | Aborted \<Rightarrow> Aborted)"

definition push_command :: "nat \<Rightarrow> BzlaSMT2Parser \<Rightarrow> BzlaSMT2Parser outcome" where
  "push_command level parser =
     (let parser = open_scopes level parser
      in Ok (parser\<lparr>backend_calls := Boolector_push level # backend_calls parser\<rparr>))"

definition pop_command :: "nat \<Rightarrow> BzlaSMT2Parser \<Rightarrow> BzlaSMT2Parser outcome" where
  "pop_command level parser =
     (if level > scope_level parser
      then Perr (''popping more scopes ('' @ print_decimal level
                 @ '') than created via push ('' @ print_decimal (scope_level parser) @ '')'')
      else (case close_scopes level parser of
              Ok parser' \<Rightarrow>
                Ok (parser'\<lparr>backend_calls := Boolector_pop level # backend_calls parser'\<rparr>)
            | Perr e \<Rightarrow> Perr e
            | Aborted \<Rightarrow> Aborted))"

text \<open>
  The parser as \<^verbatim>\<open>new_smt2_parser\<close> allocates it, before the first \<^verbatim>\<open>INSERT\<close>: no
  table, scope level 0, and \<^verbatim>\<open>global_declarations\<close> cleared.
\<close>

definition new_smt2_parser :: BzlaSMT2Parser where
  "new_smt2_parser =
     \<lparr>scope_level = 0, symbol_size = 0, symbol_count = 0, symbol_table = [],
      global_declarations = False, backend_calls = []\<rparr>"

subsection \<open>The table as a list of live entries\<close>

text \<open>
  A sequence of calls of \<^verbatim>\<open>insert_symbol_smt2\<close> and \<^verbatim>\<open>remove_symbol_smt2\<close>, run from
  the first on. A failed assertion of a removal ends the run.
\<close>

datatype table_op = Insert BzlaSMT2Node | Remove BzlaSMT2Node

fun apply_ops :: "table_op list \<Rightarrow> BzlaSMT2Parser \<Rightarrow> BzlaSMT2Parser outcome" where
  "apply_ops [] parser = Ok parser"
| "apply_ops (Insert symbol # ops) parser = apply_ops ops (insert_symbol_smt2 parser symbol)"
| "apply_ops (Remove symbol # ops) parser =
     (case remove_symbol_smt2 parser symbol of
        Ok parser' \<Rightarrow> apply_ops ops parser'
      | Perr e \<Rightarrow> Perr e
      | Aborted \<Rightarrow> Aborted)"

text \<open>
  Following the specification's words: the live entries, the most recently inserted
  first. An insertion puts the entry in front, a removal takes out the entry with the
  address of the removed node.
\<close>

fun spec_live_entries :: "table_op list \<Rightarrow> BzlaSMT2Node list \<Rightarrow> BzlaSMT2Node list" where
  "spec_live_entries [] live = live"
| "spec_live_entries (Insert symbol # ops) live = spec_live_entries ops (symbol # live)"
| "spec_live_entries (Remove symbol # ops) live =
     spec_live_entries ops (filter (\<lambda>s. node_id s \<noteq> node_id symbol) live)"

text \<open>
  The calls the parser makes: an inserted node is newly allocated, so no live entry has
  its address, and a removed node is a live entry.
\<close>

fun ops_valid :: "table_op list \<Rightarrow> BzlaSMT2Node list \<Rightarrow> bool" where
  "ops_valid [] live \<longleftrightarrow> True"
| "ops_valid (Insert symbol # ops) live \<longleftrightarrow>
     node_id symbol \<notin> set (map node_id live) \<and> ops_valid ops (symbol # live)"
| "ops_valid (Remove symbol # ops) live \<longleftrightarrow>
     symbol \<in> set live \<and> ops_valid ops (filter (\<lambda>s. node_id s \<noteq> node_id symbol) live)"

text \<open>
  Following the specification's words: the most recently inserted live entry with the
  name, where a name and its spelling between bars are the same name, as the loop of
  \<^verbatim>\<open>find_symbol_smt2\<close> compares them.
\<close>

definition spec_most_recent :: "BzlaSMT2Node list \<Rightarrow> string \<Rightarrow> BzlaSMT2Node option" where
  "spec_most_recent live name = List.find (\<lambda>s. same_symbol_name (node_name s) name) live"

text \<open>
  The hash table \<open>parser\<close> holds exactly the entries \<open>live\<close>, no address twice: its size
  is 0 with no entry, or a power of two, and each chain lists the entries that hash to
  it in the order they have in \<open>live\<close>.
\<close>

definition represents :: "BzlaSMT2Parser \<Rightarrow> BzlaSMT2Node list \<Rightarrow> bool" where
  "represents parser live \<longleftrightarrow>
     length (symbol_table parser) = symbol_size parser
     \<and> (if symbol_size parser = 0 then live = [] else (\<exists>k. symbol_size parser = 2 ^ k))
     \<and> symbol_count parser = length live
     \<and> distinct (map node_id live)
     \<and> (\<forall>h < symbol_size parser.
           symbol_table parser ! h
             = filter (\<lambda>s. hash_name_smt2 (symbol_size parser) (node_name s) = h) live)"

subsection \<open>The lexer on numerals\<close>








section \<open>Properties\<close>

subsection \<open>Auxiliary facts\<close>

lemma first_error_None: "first_error f xs = None \<longleftrightarrow> list_all (\<lambda>i. f i = None) xs"
  by (induction xs) (auto split: option.splits)

lemma str2uint32_loop_append:
  "str2uint32_loop r (xs @ ys) =
     (case str2uint32_loop r xs of None \<Rightarrow> None | Some r' \<Rightarrow> str2uint32_loop r' ys)"
  by (induction xs arbitrary: r) (auto simp: Let_def)

lemma str2uint32_loop_print_decimal:
  "n \<le> UINT32_MAX \<Longrightarrow> str2uint32_loop 0 (print_decimal n) = Some n"
proof (induction n rule: print_decimal.induct)
  case (1 n)
  show ?case
  proof (cases "n < 10")
    case True
    then show ?thesis
      using "1.prems" by (subst print_decimal.simps) (simp add: UINT32_MAX_def)
  next
    case False
    then have ih: "str2uint32_loop 0 (print_decimal (n div 10)) = Some (n div 10)"
      using "1.IH" "1.prems" by (simp add: UINT32_MAX_def)
    have d: "n div 10 \<noteq> 0" using False by simp
    have le: "\<not> UINT32_MAX div 10 < n div 10"
      using "1.prems" by (simp add: div_le_mono not_less)
    have m: "(n mod 10 + 48) mod 256 = n mod 10 + 48" by simp
    have fits: "\<not> UINT32_MAX - n mod 10 < n div 10 * 10"
      using "1.prems" by (simp add: UINT32_MAX_def) presburger
    have last_step: "str2uint32_loop (n div 10) [char_of (n mod 10 + 48)] = Some n"
      using d le fits by (simp add: Let_def m)
    show ?thesis
      using False ih last_step
      by (subst print_decimal.simps) (simp add: str2uint32_loop_append)
  qed
qed

lemma str2uint32_smt2_print_decimal:
  "n < 2 ^ 32 \<Longrightarrow> allow_zero \<or> n \<noteq> 0 \<Longrightarrow> str2uint32_smt2 allow_zero (print_decimal n) = Ok (of_nat n)"
  using str2uint32_loop_print_decimal [of n]
  by (auto simp: str2uint32_smt2_def UINT32_MAX_def)

lemma parse_uint32_smt2_decimal:
  "n < 2 ^ 32 \<Longrightarrow> allow_zero \<or> n \<noteq> 0 \<Longrightarrow>
   parse_uint32_smt2 allow_zero ((BZLA_DECIMAL_CONSTANT_TAG_SMT2, print_decimal n) # toks)
     = Ok (of_nat n, toks)"
  by (simp add: parse_uint32_smt2_def str2uint32_smt2_print_decimal)

lemma read_rpar_smt2_rpar:
  "read_rpar_smt2 msg ((BZLA_RPAR_TAG_SMT2, text) # toks) = Ok toks"
  by (simp add: read_rpar_smt2_def)

lemma work_above:
  "item_tag lp = BZLA_LPAR_TAG_SMT2 \<Longrightarrow> list_all (\<lambda>q. item_tag q \<noteq> BZLA_LPAR_TAG_SMT2) xs \<Longrightarrow>
   rev (takeWhile (\<lambda>q. item_tag q \<noteq> BZLA_LPAR_TAG_SMT2) (rev (ws @ lp # xs))) = xs"
  by (simp add: takeWhile_append2 list_all_iff takeWhile_append)

lemma work_below:
  "item_tag lp = BZLA_LPAR_TAG_SMT2 \<Longrightarrow> list_all (\<lambda>q. item_tag q \<noteq> BZLA_LPAR_TAG_SMT2) xs \<Longrightarrow>
   rev (dropWhile (\<lambda>q. item_tag q \<noteq> BZLA_LPAR_TAG_SMT2) (rev (ws @ lp # xs))) = ws @ [lp]"
  by (simp add: dropWhile_append2 list_all_iff dropWhile_append)

lemma arg_exp_1 [simp]: "arg_exp (a # as) (Suc 0) = item_exp a"
  by (simp add: arg_exp_def)

lemma arg_exp_2 [simp]: "arg_exp (a # b # as) 2 = item_exp b"
  by (simp add: arg_exp_def)

lemma close_term_reduce:
  assumes lp: "item_tag lp = BZLA_LPAR_TAG_SMT2"
    and cur: "item_tag p \<in> {BZLA_EQUAL_TAG_SMT2, BZLA_DISTINCT_TAG_SMT2, BZLA_BV_EXTRACT_TAG_SMT2,
        BZLA_BV_ROTATE_LEFT_TAG_SMT2, BZLA_BV_ROTATE_RIGHT_TAG_SMT2,
        BZLA_BV_EXT_ROTATE_LEFT_TAG_SMT2, BZLA_BV_EXT_ROTATE_RIGHT_TAG_SMT2}"
    and args: "list_all (\<lambda>a. item_tag a = BZLA_EXP_TAG_SMT2) args"
  shows "close_term ndebug (ws @ lp # p # args) =
     (case (if item_tag p = BZLA_EQUAL_TAG_SMT2 then close_term_equal p args
            else if item_tag p = BZLA_DISTINCT_TAG_SMT2 then close_term_distinct p args
            else if item_tag p = BZLA_BV_EXTRACT_TAG_SMT2 then close_term_extract p args
            else if item_tag p = BZLA_BV_ROTATE_LEFT_TAG_SMT2
            then close_term_rotate_bv_fun p args Boolector_roli
            else if item_tag p = BZLA_BV_ROTATE_RIGHT_TAG_SMT2
            then close_term_rotate_bv_fun p args Boolector_rori
            else close_term_ext_rotate ndebug p args) of
        Ok exp \<Rightarrow> Some (Ok (ws @ [lp\<lparr>item_tag := BZLA_EXP_TAG_SMT2, payload := Exp exp\<rparr>]))
      | Perr e \<Rightarrow> Some (Perr e)
      | Aborted \<Rightarrow> Some Aborted)"
proof -
  have nl: "list_all (\<lambda>q. item_tag q \<noteq> BZLA_LPAR_TAG_SMT2) (p # args)"
    using cur args by (auto simp: list_all_iff)
  have a: "rev (takeWhile (\<lambda>q. item_tag q \<noteq> BZLA_LPAR_TAG_SMT2) (rev (ws @ lp # p # args))) = p # args"
    by (rule work_above [OF lp nl])
  have b: "rev (dropWhile (\<lambda>q. item_tag q \<noteq> BZLA_LPAR_TAG_SMT2) (rev (ws @ lp # p # args))) = ws @ [lp]"
    by (rule work_below [OF lp nl])
  show ?thesis
    unfolding close_term_def a b Let_def
    using cur args by (auto simp: release_exp_and_overwrite_def split: outcome.splits)
qed

lemma equal_sort_observers:
  "boolector_is_equal_sort a b \<Longrightarrow>
   boolector_is_array b = boolector_is_array a \<and> boolector_is_fun b = boolector_is_fun a
   \<and> boolector_bv_get_width b = boolector_bv_get_width a
   \<and> boolector_array_get_index_width b = boolector_array_get_index_width a"
  by (cases a; cases b) (simp_all add: boolector_is_equal_sort_def)

lemma check_arg_sorts_match_uniform:
  assumes "args \<noteq> []"
    and "\<forall>a \<in> set args. boolector_is_equal_sort (item_exp (hd args)) (item_exp a)"
  shows "check_arg_sorts_match_smt2 p args 0 (length args) = None"
proof -
  have first: "arg_exp args (Suc 0) = item_exp (hd args)"
    using assms(1) by (simp add: arg_exp_def hd_conv_nth)
  have self: "boolector_is_equal_sort (item_exp (hd args)) (item_exp (hd args))"
    using assms by simp
  have each: "boolector_is_array (arg_exp args i) = boolector_is_array (item_exp (hd args))
      \<and> boolector_is_fun (arg_exp args i) = boolector_is_fun (item_exp (hd args))
      \<and> boolector_bv_get_width (arg_exp args i) = boolector_bv_get_width (item_exp (hd args))
      \<and> boolector_array_get_index_width (arg_exp args i)
          = boolector_array_get_index_width (item_exp (hd args))
      \<and> boolector_is_equal_sort (item_exp (hd args)) (arg_exp args i)"
    if "1 \<le> i" "i < Suc (length args)" for i
  proof -
    have "boolector_is_equal_sort (item_exp (hd args)) (arg_exp args i)"
      using that assms(2) by (simp add: arg_exp_def)
    then show ?thesis using equal_sort_observers by blast
  qed
  show ?thesis
    unfolding check_arg_sorts_match_smt2_def Let_def
    using each
    by (simp add: first first_error_None list_all_iff del: upt_Suc)
qed

lemma fold_equalities:
  assumes "2 \<le> n"
  shows "foldl (\<lambda>exp i. Boolector_and exp (Boolector_eq (f (i - 1)) (f i))) (Boolector_eq (f 1) (f 2))
           [3 ..< Suc n]
         = foldl Boolector_and (hd (map (\<lambda>i. Boolector_eq (f (Suc i)) (f (Suc (Suc i)))) [0 ..< n - 1]))
             (tl (map (\<lambda>i. Boolector_eq (f (Suc i)) (f (Suc (Suc i)))) [0 ..< n - 1]))"
proof -
  have t: "map (\<lambda>i. Boolector_eq (f (i - 1)) (f i)) [3 ..< Suc n]
      = tl (map (\<lambda>i. Boolector_eq (f (Suc i)) (f (Suc (Suc i)))) [0 ..< n - 1])"
    using assms by (intro nth_equalityI) (auto simp: nth_tl numeral_3_eq_3 simp del: upt_Suc)
  have h: "hd (map (\<lambda>i. Boolector_eq (f (Suc i)) (f (Suc (Suc i)))) [0 ..< n - 1])
      = Boolector_eq (f 1) (f 2)"
    using assms by (simp add: hd_map upt_conv_Cons numeral_2_eq_2)
  have "foldl (\<lambda>exp i. Boolector_and exp (Boolector_eq (f (i - 1)) (f i))) a xs
      = foldl Boolector_and a (map (\<lambda>i. Boolector_eq (f (i - 1)) (f i)) xs)" for a xs
    by (simp add: foldl_map)
  then show ?thesis
    unfolding h t [symmetric] by simp
qed

lemma fold_disequalities:
  "foldl (\<lambda>exp (i, j). case exp of None \<Rightarrow> Some (g i j) | Some old \<Rightarrow> Some (Boolector_and old (g i j)))
     (Some a) ps
   = Some (foldl Boolector_and a (map (\<lambda>(i, j). g i j) ps))"
  by (induction ps arbitrary: a) auto

lemma fold_disequalities_None:
  "ps \<noteq> [] \<Longrightarrow>
   foldl (\<lambda>exp (i, j). case exp of None \<Rightarrow> Some (g i j) | Some old \<Rightarrow> Some (Boolector_and old (g i j)))
     None ps
   = Some (foldl Boolector_and (hd (map (\<lambda>(i, j). g i j) ps)) (tl (map (\<lambda>(i, j). g i j) ps)))"
  by (cases ps) (auto simp: fold_disequalities)

lemma distinct_pairs_shift:
  "map (\<lambda>(i, j). g i j) (distinct_pairs n)
   = concat (map (\<lambda>i. map (\<lambda>j. g (Suc i) (Suc j)) [Suc i ..< n]) [0 ..< n - 1])"
proof -
  have inner: "map (\<lambda>j. g i j) [Suc i ..< Suc n] = map (\<lambda>j. g i (Suc j)) [i ..< n]" for i
    by (intro nth_equalityI) (auto simp del: upt_Suc)
  have outer: "[1 ..< n] = map Suc [0 ..< n - 1]"
    by (intro nth_equalityI) (auto simp del: upt_Suc)
  show ?thesis
    unfolding distinct_pairs_def outer
    by (simp add: map_concat o_def inner del: upt_Suc)
qed

lemma length_distinct_pairs: "length (distinct_pairs n) = n * (n - 1) div 2"
proof -
  have "length (distinct_pairs n) = (\<Sum>i\<leftarrow>[1 ..< n]. n - i)"
    by (simp add: distinct_pairs_def length_concat o_def del: upt_Suc)
  also have "\<dots> = (\<Sum>i = 1 ..< n. n - i)"
    by (simp add: interv_sum_list_conv_sum_set_nat)
  also have "\<dots> = (\<Sum>i = 1 ..< n. i)"
    by (rule sum.reindex_bij_witness [where i = "\<lambda>i. n - i" and j = "\<lambda>i. n - i"]) auto
  also have "\<dots> = n * (n - 1) div 2"
    by (simp add: Sum_Ico_nat)
  finally show ?thesis .
qed

lemma chain_equalities_args:
  "spec_chain_equalities (map item_exp args)
   = map (\<lambda>i. Boolector_eq (arg_exp args (Suc i)) (arg_exp args (Suc (Suc i)))) [0 ..< length args - 1]"
  by (simp add: spec_chain_equalities_def arg_exp_def)

lemma pairwise_disequalities_args:
  "spec_pairwise_disequalities (map item_exp args)
   = map (\<lambda>(i, j). Boolector_ne (arg_exp args i) (arg_exp args j)) (distinct_pairs (length args))"
proof -
  have last: "[0 ..< length args] = [0 ..< length args - 1] @ [length args - 1]" if "args \<noteq> []"
    using that by (cases args rule: rev_cases) simp_all
  have "spec_pairwise_disequalities (map item_exp args)
      = concat (map (\<lambda>i. map (\<lambda>j. Boolector_ne (arg_exp args (Suc i)) (arg_exp args (Suc j)))
                             [Suc i ..< length args]) [0 ..< length args - 1])"
  proof (cases "args = []")
    case True
    then show ?thesis by (simp add: spec_pairwise_disequalities_def)
  next
    case False
    have "concat (map (\<lambda>i. map (\<lambda>j. Boolector_ne (map item_exp args ! i) (map item_exp args ! j))
                              [Suc i ..< length args]) [0 ..< length args - 1])
        = concat (map (\<lambda>i. map (\<lambda>j. Boolector_ne (arg_exp args (Suc i)) (arg_exp args (Suc j)))
                             [Suc i ..< length args]) [0 ..< length args - 1])"
      apply (rule arg_cong [where f = concat])
      apply (rule map_cong [OF refl])
      apply (rule map_cong [OF refl])
      apply (simp add: arg_exp_def)
      done
    then show ?thesis
      unfolding spec_pairwise_disequalities_def length_map
      by (subst last [OF False]) simp
  qed
  then show ?thesis by (simp add: distinct_pairs_shift)
qed

lemma distinct_pairs_nonempty: "2 \<le> n \<Longrightarrow> distinct_pairs n \<noteq> []"
  using length_distinct_pairs [of n]
  by (cases n; cases "n - 1") auto

lemma bzla_bv_to_nat_snoc:
  "bzla_bv_to_nat (bv @ [b]) = 2 * bzla_bv_to_nat bv + (if b then 1 else 0)"
  by (simp add: bzla_bv_to_nat_def)

lemma bzla_bv_to_nat_bin_str: "bzla_bv_to_nat (bzla_bv_char_to_bv (bin_str_of_nat n)) = n"
proof (induction n rule: bin_str_of_nat.induct)
  case (1 n)
  show ?case
  proof (cases "n = 0")
    case True
    then show ?thesis
      by (subst bin_str_of_nat.simps) (simp add: bzla_bv_to_nat_def bzla_bv_char_to_bv_def)
  next
    case False
    have "bzla_bv_to_nat (bzla_bv_char_to_bv (bin_str_of_nat n))
        = 2 * bzla_bv_to_nat (bzla_bv_char_to_bv (bin_str_of_nat (n div 2))) + (if odd n then 1 else 0)"
      using False
      by (subst bin_str_of_nat.simps)
         (simp add: bzla_bv_char_to_bv_def bzla_bv_to_nat_snoc [unfolded bzla_bv_char_to_bv_def])
    also have "\<dots> = 2 * (n div 2) + (if odd n then 1 else 0)"
      using "1.IH" False by simp
    also have "\<dots> = n" by presburger
    finally show ?thesis .
  qed
qed

lemma length_bin_str_le: "length (bin_str_of_nat k) \<le> n \<longleftrightarrow> k < 2 ^ n"
proof (induction k arbitrary: n rule: bin_str_of_nat.induct)
  case (1 k)
  show ?case
  proof (cases "k = 0")
    case True
    then show ?thesis by (subst bin_str_of_nat.simps) simp
  next
    case False
    have len: "length (bin_str_of_nat k) = Suc (length (bin_str_of_nat (k div 2)))"
      using False by (subst bin_str_of_nat.simps) simp
    show ?thesis
    proof (cases n)
      case 0
      then show ?thesis using False len by simp
    next
      case (Suc m)
      have "length (bin_str_of_nat k) \<le> n \<longleftrightarrow> length (bin_str_of_nat (k div 2)) \<le> m"
        using len Suc by simp
      also have "\<dots> \<longleftrightarrow> k div 2 < 2 ^ m"
        using "1.IH" [OF False] by simp
      also have "\<dots> \<longleftrightarrow> k < 2 ^ n"
        unfolding Suc by (simp add: div_less_iff_less_mult mult.commute)
      finally show ?thesis .
    qed
  qed
qed

lemma bzla_bv_to_nat_zeros: "bzla_bv_to_nat (replicate k False @ bv) = bzla_bv_to_nat bv"
proof -
  have "foldl (\<lambda>a b. 2 * a + (if b then 1 else 0)) (0::nat) (replicate k False) = 0"
    by (induction k) simp_all
  then show ?thesis by (simp add: bzla_bv_to_nat_def)
qed

lemma bzla_bv_char_to_bv_to_char: "bzla_bv_char_to_bv (bzla_bv_to_char bv) = bv"
  by (induction bv) (simp_all add: bzla_bv_char_to_bv_def bzla_bv_to_char_def)

lemma const_value_zero: "const_value (Boolector_zero w) = 0"
  using bzla_bv_to_nat_zeros [of "unat w" "[]"]
  by (simp add: const_value_def bzla_bv_char_to_bv_def bzla_bv_to_nat_def)

lemma bvconst_exp_value:
  assumes "0 < n" and "n < 2 ^ 32"
  shows "bvconst_exp (CHR ''b'' # CHR ''v'' # ks)
           ((BZLA_DECIMAL_CONSTANT_TAG_SMT2, print_decimal n) # toks)
         = (if 2 ^ n \<le> dec_str_to_nat ks
            then Perr (''decimal constant '' @ sq @ ks @ sq @ '' needs ''
                       @ print_decimal (length (bin_str_of_nat (dec_str_to_nat ks)))
                       @ '' bits which exceeds bit-width '' @ sq @ print_decimal n @ sq)
            else Ok (if length (bin_str_of_nat (dec_str_to_nat ks)) = n
                     then Boolector_const (bin_str_of_nat (dec_str_to_nat ks))
                     else if dec_str_to_nat ks = 0 then Boolector_zero (of_nat n)
                     else Boolector_const
                            (bzla_bv_to_char
                               (bzla_bv_uext (bzla_bv_char_to_bv (bin_str_of_nat (dec_str_to_nat ks)))
                                  (n - length (bin_str_of_nat (dec_str_to_nat ks))))), toks))"
proof -
  have u: "unat (of_nat n :: u32) = n"
    using assms(2) by (simp add: unat_of_nat take_bit_nat_eq_self)
  have z: "bin_str_of_nat k = [] \<longleftrightarrow> k = 0" for k
    using length_bin_str_le [of k 0] by simp
  have gt: "n < length (bin_str_of_nat k) \<longleftrightarrow> 2 ^ n \<le> k" for k
    using length_bin_str_le [of k n] by auto
  show ?thesis
    using assms
    by (simp add: bvconst_exp_def parse_uint32_smt2_decimal bzla_util_dec_to_bin_str_def u z gt
        Let_def)
qed

lemma bvconst_node:
  assumes "k < 2 ^ n" and "0 < n" and "n < 2 ^ 32"
    and "e = (if length (bin_str_of_nat k) = n
              then Boolector_const (bin_str_of_nat k)
              else if k = 0 then Boolector_zero (of_nat n)
              else Boolector_const
                     (bzla_bv_to_char
                        (bzla_bv_uext (bzla_bv_char_to_bv (bin_str_of_nat k))
                           (n - length (bin_str_of_nat k)))))"
  shows "boolector_is_const e \<and> unat (boolector_bv_get_width e) = n
       \<and> length (boolector_get_bits e) = n \<and> const_value e = k"
proof -
  have u: "unat (of_nat n :: u32) = n"
    using assms(3) by (simp add: unat_of_nat take_bit_nat_eq_self)
  have le: "length (bin_str_of_nat k) \<le> n"
    using assms(1) by (simp add: length_bin_str_le)
  have zeros: "bzla_bv_to_nat (replicate m False) = 0" for m
    using bzla_bv_to_nat_zeros [of m "[]"] by (simp add: bzla_bv_to_nat_def)
  show ?thesis
    using u le zeros
    by (simp add: assms(4) const_value_def const_value_zero [unfolded const_value_def]
        bzla_bv_to_nat_bin_str bzla_bv_to_char_def [symmetric]
        bzla_bv_char_to_bv_to_char bzla_bv_uext_def bzla_bv_to_nat_zeros)
       (simp add: bzla_bv_to_char_def bzla_bv_char_to_bv_def)
qed

lemma dec_str_to_nat_print_decimal: "dec_str_to_nat (print_decimal k) = k"
proof (induction k rule: print_decimal.induct)
  case (1 k)
  have m: "(k mod 10 + 48) mod 256 = k mod 10 + 48" by simp
  show ?case
  proof (cases "10 \<le> k")
    case True
    then show ?thesis
      using "1.IH" by (subst print_decimal.simps) (simp add: dec_str_to_nat_def m)
  next
    case False
    then show ?thesis
      by (subst print_decimal.simps) (simp add: dec_str_to_nat_def)
  qed
qed

lemma digits_print_decimal: "print_decimal k \<noteq> [] \<and> list_all isdigit (print_decimal k)"
proof (induction k rule: print_decimal.induct)
  case (1 k)
  have m: "(k mod 10 + 48) mod 256 = k mod 10 + 48" by simp
  have d: "isdigit (char_of (k mod 10 + 48))"
    by (simp add: isdigit_def m)
  show ?case
    using "1.IH" d by (subst (1 2) print_decimal.simps) simp
qed




lemma hash_name_smt2_alt:
  "hash_name_smt2 n name = unat (name_hash name AND (of_nat n - 1))"
  by (simp add: hash_name_smt2_def name_hash_def Let_def)

lemma hash_name_smt2_pow2: "hash_name_smt2 (2 ^ k) name = unat (name_hash name) mod 2 ^ k"
proof (cases "k < 32")
  case True
  have "(of_nat (2 ^ k) :: u32) - 1 = mask k"
    by (simp add: mask_eq_exp_minus_1)
  then have "hash_name_smt2 (2 ^ k) name = unat (take_bit k (name_hash name))"
    by (simp add: hash_name_smt2_alt take_bit_eq_mask)
  also have "\<dots> = take_bit k (unat (name_hash name))"
    by (rule unsigned_take_bit_eq)
  finally show ?thesis
    by (simp only: take_bit_eq_mod)
next
  case False
  then have z: "(2 :: u32) ^ k = 0"
    by (simp add: exp_eq_zero_iff)
  have "unat (name_hash name) < 2 ^ 32"
    using unsigned_less [of "name_hash name"] by simp
  also have "(2 :: nat) ^ 32 \<le> 2 ^ k"
    using False by (intro power_increasing) simp_all
  finally have "unat (name_hash name) mod 2 ^ k = unat (name_hash name)"
    by simp
  then show ?thesis
    by (simp add: hash_name_smt2_alt z)
qed

lemma hash_name_smt2_less: "hash_name_smt2 (2 ^ k) name < 2 ^ k"
  by (simp add: hash_name_smt2_pow2)

lemma hash_name_smt2_double:
  "hash_name_smt2 (2 * 2 ^ k) name mod 2 ^ k = hash_name_smt2 (2 ^ k) name"
proof -
  have "hash_name_smt2 (2 ^ Suc k) name mod 2 ^ k = hash_name_smt2 (2 ^ k) name"
    unfolding hash_name_smt2_pow2 by (simp add: mod_mod_cancel)
  then show ?thesis by simp
qed


lemma same_symbol_name_hash:
  assumes "same_symbol_name s name"
  shows "hash_name_smt2 n s = hash_name_smt2 n name"
proof -
  have "name_hash s = name_hash name"
  proof (cases "is_quoted s = is_quoted name")
    case True
    then show ?thesis using assms by (simp add: same_symbol_name_def)
  next
    case False
    show ?thesis
    proof (cases "is_quoted s")
      case True
      then have nq: "\<not> is_quoted name" using False by simp
      from assms True nq have len: "length s = length name + 2"
        and chars: "take (length name) (drop 1 s) = name"
        by (auto simp: same_symbol_name_def Let_def)
      have "drop 1 (take (length s - 1) s) = take (length name) (drop 1 s)"
        using len by (simp add: drop_take)
      then show ?thesis
        using True nq chars by (simp add: name_hash_def)
    next
      case sq: False
      then have q: "is_quoted name" using False by simp
      from assms sq q have len: "length name = length s + 2"
        and chars: "s = take (length s) (drop 1 name)"
        by (auto simp: same_symbol_name_def Let_def)
      have "drop 1 (take (length name - 1) name) = take (length s) (drop 1 name)"
        using len by (simp add: drop_take)
      then show ?thesis
        using sq q chars by (simp add: name_hash_def)
    qed
  qed
  then show ?thesis by (simp add: hash_name_smt2_alt)
qed

lemma quoted_bars: "is_quoted (CHR ''|'' # x @ ''|'')"
  by (simp add: is_quoted_def)

lemma same_symbol_name_bars:
  assumes "\<not> is_quoted x"
  shows "same_symbol_name s (CHR ''|'' # x @ ''|'') = same_symbol_name s x"
proof (cases "is_quoted s")
  case True
  have "s = CHR ''|'' # x @ ''|''" if len: "length s = length x + 2"
    and chars: "take (length x) (drop 1 s) = x"
  proof -
    from True have s: "s \<noteq> []" "hd s = CHR ''|''" "last s = CHR ''|''"
      by (simp_all add: is_quoted_def)
    obtain r where r: "drop 1 s = x @ r" "length r = 1"
      using len chars
      by (metis One_nat_def add_diff_cancel_left' append_take_drop_id length_drop
          length_append add.commute add_2_eq_Suc' diff_Suc_1 length_take min.absorb2
          le_add2 plus_1_eq_Suc)
    then obtain c where c: "r = [c]"
      by (cases r) auto
    have "s = hd s # drop 1 s" using s(1) by (cases s) simp_all
    then have "s = CHR ''|'' # x @ [c]" using s(2) r c by simp
    moreover from this s(3) have "c = CHR ''|''"
      by (metis last_ConsR last_snoc snoc_eq_iff_butlast list.distinct(1))
    ultimately show ?thesis by simp
  qed
  then show ?thesis
    using True assms quoted_bars [of x]
    by (auto simp: same_symbol_name_def Let_def)
next
  case False
  then show ?thesis
    using assms quoted_bars [of x]
    by (auto simp: same_symbol_name_def Let_def)
qed

lemma name_hash_bars: "\<not> is_quoted x \<Longrightarrow> name_hash (CHR ''|'' # x @ ''|'') = name_hash x"
  using quoted_bars [of x] by (simp add: name_hash_def)

lemma find_filter: "(\<And>s. P s \<Longrightarrow> Q s) \<Longrightarrow> List.find P (filter Q xs) = List.find P xs"
  by (induction xs) auto

lemma represents_find:
  assumes "represents parser live"
  shows "find_symbol_smt2 parser name
           = List.find (\<lambda>s. same_symbol_name (node_name s) name) live"
proof (cases "symbol_size parser = 0")
  case True
  then show ?thesis using assms by (simp add: represents_def find_symbol_smt2_def)
next
  case False
  then obtain k where k: "symbol_size parser = 2 ^ k"
    using assms by (auto simp: represents_def)
  have h: "hash_name_smt2 (symbol_size parser) name < symbol_size parser"
    unfolding k by (rule hash_name_smt2_less)
  have "symbol_table parser ! hash_name_smt2 (symbol_size parser) name
      = filter (\<lambda>s. hash_name_smt2 (symbol_size parser) (node_name s)
                       = hash_name_smt2 (symbol_size parser) name) live"
    using assms h by (simp add: represents_def)
  then show ?thesis
    using False by (simp add: find_symbol_smt2_def find_filter same_symbol_name_hash)
qed

lemma rehash_chain_Cons:
  "rehash_chain n t (x # xs) = rehash_node n (rehash_chain n t xs) x"
  by (simp add: rehash_chain_def)

lemma rehash_chain_nth:
  assumes "\<forall>s \<in> set c. hash_name_smt2 n (node_name s) < length t"
  shows "length (rehash_chain n t c) = length t
       \<and> (\<forall>h < length t. rehash_chain n t c ! h
              = filter (\<lambda>s. hash_name_smt2 n (node_name s) = h) c @ t ! h)"
  using assms
proof (induction c)
  case Nil
  then show ?case by (simp add: rehash_chain_def)
next
  case (Cons x xs)
  then show ?case
    by (auto simp: rehash_chain_Cons rehash_node_def Let_def nth_list_update)
qed

lemma rehash_chains_nth:
  assumes "\<forall>c \<in> set cs. \<forall>s \<in> set c. hash_name_smt2 n (node_name s) < length t"
  shows "length (foldl (rehash_chain n) t cs) = length t
       \<and> (\<forall>h < length t. foldl (rehash_chain n) t cs ! h
              = concat (map (filter (\<lambda>s. hash_name_smt2 n (node_name s) = h)) (rev cs)) @ t ! h)"
  using assms
proof (induction cs arbitrary: t)
  case Nil
  then show ?case by simp
next
  case (Cons c cs)
  have c: "\<forall>s \<in> set c. hash_name_smt2 n (node_name s) < length t"
    using Cons.prems by simp
  note step = rehash_chain_nth [OF c]
  have "\<forall>d \<in> set cs. \<forall>s \<in> set d. hash_name_smt2 n (node_name s) < length (rehash_chain n t c)"
    using Cons.prems step by simp
  from Cons.IH [OF this] step show ?case by simp
qed

lemma concat_single:
  "j < length xs \<Longrightarrow> (\<forall>i < length xs. i \<noteq> j \<longrightarrow> xs ! i = []) \<Longrightarrow> concat xs = xs ! j"
proof (induction xs arbitrary: j)
  case Nil
  then show ?case by simp
next
  case (Cons x xs)
  show ?case
  proof (cases j)
    case 0
    have "xs ! i = []" if "i < length xs" for i
      using Cons.prems(2) [rule_format, of "Suc i"] 0 that by simp
    then have "\<forall>y \<in> set xs. y = []"
      by (auto simp: in_set_conv_nth)
    then have "concat xs = []" by simp
    then show ?thesis using 0 by simp
  next
    case (Suc m)
    have "x = []" using Cons.prems(2) [rule_format, of 0] Suc by simp
    moreover have "concat xs = xs ! m"
      using Cons.prems Suc by (intro Cons.IH) auto
    ultimately show ?thesis using Suc by simp
  qed
qed

lemma rehash_table:
  assumes len: "length table = 2 ^ k"
    and old: "\<forall>h < 2 ^ k. table ! h = filter (\<lambda>s. hash_name_smt2 (2 ^ k) (node_name s) = h) live"
  shows "length (foldl (rehash_chain (2 * 2 ^ k)) (replicate (2 * 2 ^ k) []) table) = 2 * 2 ^ k
       \<and> (\<forall>h < 2 * 2 ^ k.
             foldl (rehash_chain (2 * 2 ^ k)) (replicate (2 * 2 ^ k) []) table ! h
               = filter (\<lambda>s. hash_name_smt2 (2 * 2 ^ k) (node_name s) = h) live)"
proof -
  let ?n = "2 * 2 ^ k :: nat"
  let ?new = "\<lambda>s. hash_name_smt2 ?n (node_name s)"
  let ?old = "\<lambda>s. hash_name_smt2 (2 ^ k) (node_name s)"
  have less: "hash_name_smt2 ?n name < ?n" for name
    using hash_name_smt2_less [of "Suc k" name] by simp
  have "\<forall>c \<in> set table. \<forall>s \<in> set c. ?new s < length (replicate ?n ([] :: BzlaSMT2Node list))"
    using less by simp
  note fold = rehash_chains_nth [OF this]
  have chain: "concat (map (filter (\<lambda>s. ?new s = h)) (rev table)) = filter (\<lambda>s. ?new s = h) live"
    if h: "h < ?n" for h
  proof -
    let ?xs = "map (filter (\<lambda>s. ?new s = h)) (rev table)"
    let ?j = "2 ^ k - 1 - h mod 2 ^ k"
    have j: "?j < length ?xs" using len by simp
    have old_of_new: "?old s = h mod 2 ^ k" if "?new s = h" for s
      using hash_name_smt2_double [of k "node_name s"] that by simp
    have at: "?xs ! i = filter (\<lambda>s. ?new s = h \<and> ?old s = 2 ^ k - 1 - i) live"
      if "i < 2 ^ k" for i
    proof -
      have "rev table ! i = table ! (2 ^ k - 1 - i)"
        using that len by (simp add: rev_nth)
      also have "\<dots> = filter (\<lambda>s. ?old s = 2 ^ k - 1 - i) live"
        using old that by simp
      finally show ?thesis
        using that len by (simp add: conj_commute)
    qed
    have others: "\<forall>i < length ?xs. i \<noteq> ?j \<longrightarrow> ?xs ! i = []"
    proof (intro allI impI)
      fix i assume i: "i < length ?xs" "i \<noteq> ?j"
      then have i': "i < 2 ^ k" using len by simp
      have m: "h mod 2 ^ k < 2 ^ k" by simp
      have ne: "2 ^ k - 1 - i \<noteq> h mod 2 ^ k"
        using i' i(2) m by linarith
      have "\<not> (?new s = h \<and> ?old s = 2 ^ k - 1 - i)" for s
      proof
        assume a: "?new s = h \<and> ?old s = 2 ^ k - 1 - i"
        then have "?old s = h mod 2 ^ k" by (intro old_of_new) simp
        with a ne show False by simp
      qed
      then have "filter (\<lambda>s. ?new s = h \<and> ?old s = 2 ^ k - 1 - i) live = []"
        unfolding filter_empty_conv by blast
      then show "?xs ! i = []" using at [OF i'] by simp
    qed
    have "concat ?xs = ?xs ! ?j"
      by (rule concat_single [OF j others])
    also have "\<dots> = filter (\<lambda>s. ?new s = h \<and> ?old s = h mod 2 ^ k) live"
    proof -
      have m: "h mod 2 ^ k < 2 ^ k" by simp
      then have "(2 :: nat) ^ k - 1 - ?j = h mod 2 ^ k" by linarith
      moreover have "?j < 2 ^ k" using m by linarith
      ultimately show ?thesis using at [of ?j] by simp
    qed
    also have "\<dots> = filter (\<lambda>s. ?new s = h) live"
      using old_of_new by (intro filter_cong) auto
    finally show ?thesis .
  qed
  show ?thesis
    using fold chain by simp
qed

lemma represents_enlarge:
  assumes "represents parser live"
  shows "represents (enlarge_symbol_table_smt2 parser) live
       \<and> symbol_size (enlarge_symbol_table_smt2 parser) \<noteq> 0
       \<and> symbol_size parser < symbol_size (enlarge_symbol_table_smt2 parser)
       \<and> symbol_count (enlarge_symbol_table_smt2 parser) = symbol_count parser
       \<and> scope_level (enlarge_symbol_table_smt2 parser) = scope_level parser
       \<and> global_declarations (enlarge_symbol_table_smt2 parser) = global_declarations parser
       \<and> backend_calls (enlarge_symbol_table_smt2 parser) = backend_calls parser"
proof (cases "symbol_size parser = 0")
  case True
  have "\<exists>k. Suc 0 = 2 ^ k" by (rule exI [of _ 0]) simp
  then show ?thesis
    using assms True
    by (simp add: represents_def enlarge_symbol_table_smt2_def Let_def)
next
  case False
  then obtain k where k: "symbol_size parser = 2 ^ k"
    using assms by (auto simp: represents_def)
  have len: "length (symbol_table parser) = 2 ^ k"
    using assms k by (simp add: represents_def)
  have old: "\<forall>h < 2 ^ k. symbol_table parser ! h
      = filter (\<lambda>s. hash_name_smt2 (2 ^ k) (node_name s) = h) live"
    using assms k by (simp add: represents_def)
  note new = rehash_table [OF len old]
  have "\<exists>j. 2 * 2 ^ k = (2 :: nat) ^ j" by (rule exI [of _ "Suc k"]) simp
  then show ?thesis
    using assms new False k len
    by (simp add: represents_def enlarge_symbol_table_smt2_def Let_def)
qed

lemma represents_insert_no_enlarge:
  assumes r: "represents parser live" and size: "symbol_size parser \<noteq> 0"
    and fresh: "node_id symbol \<notin> node_id ` set live"
  shows "represents
           (parser\<lparr>symbol_table := (symbol_table parser)
                      [hash_name_smt2 (symbol_size parser) (node_name symbol)
                         := symbol # symbol_table parser
                                       ! hash_name_smt2 (symbol_size parser) (node_name symbol)],
                    symbol_count := symbol_count parser + 1\<rparr>)
           (symbol # live)"
proof -
  obtain k where k: "symbol_size parser = 2 ^ k"
    using r size by (auto simp: represents_def)
  have h: "hash_name_smt2 (symbol_size parser) (node_name symbol) < symbol_size parser"
    unfolding k by (rule hash_name_smt2_less)
  show ?thesis
    using r size fresh h
    by (auto simp: represents_def nth_list_update)
qed

lemma represents_insert:
  assumes r: "represents parser live" and fresh: "node_id symbol \<notin> node_id ` set live"
  shows "represents (insert_symbol_smt2 parser symbol) (symbol # live)
       \<and> scope_level (insert_symbol_smt2 parser symbol) = scope_level parser
       \<and> global_declarations (insert_symbol_smt2 parser symbol) = global_declarations parser
       \<and> backend_calls (insert_symbol_smt2 parser symbol) = backend_calls parser"
proof (cases "symbol_size parser \<le> symbol_count parser")
  case True
  note e = represents_enlarge [OF r]
  from e have re: "represents (enlarge_symbol_table_smt2 parser) live"
    and ne: "symbol_size (enlarge_symbol_table_smt2 parser) \<noteq> 0" by simp_all
  show ?thesis
    using True e represents_insert_no_enlarge [OF re ne fresh]
    by (simp add: insert_symbol_smt2_def Let_def)
next
  case False
  then have ne: "symbol_size parser \<noteq> 0" by simp
  show ?thesis
    using False represents_insert_no_enlarge [OF r ne fresh]
    by (simp add: insert_symbol_smt2_def Let_def)
qed

lemma unlink_by_identity:
  assumes "distinct (map node_id xs)" and "symbol \<in> set xs"
  shows "\<exists>next. dropWhile (\<lambda>s. node_name s \<noteq> node_name symbol \<or> node_id s \<noteq> node_id symbol) xs
                  = symbol # next
              \<and> takeWhile (\<lambda>s. node_name s \<noteq> node_name symbol \<or> node_id s \<noteq> node_id symbol) xs
                  @ next
                  = filter (\<lambda>s. node_id s \<noteq> node_id symbol) xs"
  using assms
proof (induction xs)
  case Nil
  then show ?case by simp
next
  case (Cons x xs)
  show ?case
  proof (cases "x = symbol")
    case True
    have "node_id symbol \<notin> node_id ` set xs"
      using Cons.prems(1) True by simp
    then have "\<forall>s \<in> set xs. node_id s \<noteq> node_id symbol"
      by (metis imageI)
    then have "filter (\<lambda>s. node_id s \<noteq> node_id symbol) xs = xs"
      by (simp add: filter_id_conv)
    then show ?thesis using True by simp
  next
    case False
    then have mem: "symbol \<in> set xs" using Cons.prems(2) by simp
    have "node_id x \<noteq> node_id symbol"
      using Cons.prems(1) mem by auto
    then show ?thesis
      using Cons.IH [OF _ mem] Cons.prems(1) by simp
  qed
qed

lemma length_filter_other_ids:
  assumes "distinct (map node_id xs)" and "symbol \<in> set xs"
  shows "Suc (length (filter (\<lambda>s. node_id s \<noteq> node_id symbol) xs)) = length xs"
  using assms
proof (induction xs)
  case Nil
  then show ?case by simp
next
  case (Cons x xs)
  show ?case
  proof (cases "x = symbol")
    case True
    have "node_id symbol \<notin> node_id ` set xs"
      using Cons.prems(1) True by simp
    then have "\<forall>s \<in> set xs. node_id s \<noteq> node_id symbol"
      by (metis imageI)
    then have "filter (\<lambda>s. node_id s \<noteq> node_id symbol) xs = xs"
      by (simp add: filter_id_conv)
    then show ?thesis using True by simp
  next
    case False
    then have mem: "symbol \<in> set xs" using Cons.prems(2) by simp
    have "node_id x \<noteq> node_id symbol"
      using Cons.prems(1) mem by auto
    then show ?thesis
      using Cons.IH [OF _ mem] Cons.prems(1) by simp
  qed
qed

lemma represents_remove:
  assumes r: "represents parser live" and mem: "symbol \<in> set live"
  shows "\<exists>parser'. remove_symbol_smt2 parser symbol = Ok parser'
       \<and> represents parser' (filter (\<lambda>s. node_id s \<noteq> node_id symbol) live)
       \<and> symbol_size parser' = symbol_size parser
       \<and> scope_level parser' = scope_level parser
       \<and> global_declarations parser' = global_declarations parser
       \<and> backend_calls parser' = backend_calls parser"
proof -
  let ?h = "hash_name_smt2 (symbol_size parser) (node_name symbol)"
  let ?P = "\<lambda>s. node_name s \<noteq> node_name symbol \<or> node_id s \<noteq> node_id symbol"
  from mem have nonempty: "live \<noteq> []" by auto
  then have size: "symbol_size parser \<noteq> 0"
    using r by (auto simp: represents_def split: if_splits)
  then obtain k where k: "symbol_size parser = 2 ^ k"
    using r by (auto simp: represents_def)
  have h: "?h < symbol_size parser"
    unfolding k by (rule hash_name_smt2_less)
  have chain: "symbol_table parser ! ?h
      = filter (\<lambda>s. hash_name_smt2 (symbol_size parser) (node_name s) = ?h) live"
    using r h by (simp add: represents_def)
  have d: "distinct (map node_id live)" using r by (simp add: represents_def)
  have dc: "distinct (map node_id (symbol_table parser ! ?h))"
    unfolding chain using d by (simp add: distinct_map_filter)
  have mc: "symbol \<in> set (symbol_table parser ! ?h)"
    unfolding chain using mem by simp
  from unlink_by_identity [OF dc mc] obtain nxt
    where drop: "dropWhile ?P (symbol_table parser ! ?h) = symbol # nxt"
      and unlinked: "takeWhile ?P (symbol_table parser ! ?h) @ nxt
          = filter (\<lambda>s. node_id s \<noteq> node_id symbol) (symbol_table parser ! ?h)"
    by blast
  have count: "symbol_count parser \<noteq> 0"
    using r nonempty by (simp add: represents_def)
  define chain' where "chain' = takeWhile ?P (symbol_table parser ! ?h) @ nxt"
  have chain': "chain' = filter (\<lambda>s. hash_name_smt2 (symbol_size parser) (node_name s) = ?h)
                           (filter (\<lambda>s. node_id s \<noteq> node_id symbol) live)"
  proof -
    have "chain' = filter (\<lambda>s. node_id s \<noteq> node_id symbol) (symbol_table parser ! ?h)"
      unfolding chain'_def by (rule unlinked)
    also have "\<dots> = filter (\<lambda>s. hash_name_smt2 (symbol_size parser) (node_name s) = ?h)
                           (filter (\<lambda>s. node_id s \<noteq> node_id symbol) live)"
      unfolding chain by (simp add: conj_commute)
    finally show ?thesis .
  qed
  let ?parser' = "parser\<lparr>symbol_table := (symbol_table parser)[?h := chain'],
      symbol_count := symbol_count parser - 1\<rparr>"
  have result: "remove_symbol_smt2 parser symbol = Ok ?parser'"
    using size count drop by (simp add: remove_symbol_smt2_def Let_def chain'_def)
  have len: "symbol_count parser - 1
      = length (filter (\<lambda>s. node_id s \<noteq> node_id symbol) live)"
    using length_filter_other_ids [OF d mem] r by (simp add: represents_def)
  have others: "symbol_table parser ! g
      = filter (\<lambda>s. hash_name_smt2 (symbol_size parser) (node_name s) = g)
          (filter (\<lambda>s. node_id s \<noteq> node_id symbol) live)"
    if "g < symbol_size parser" "g \<noteq> ?h" for g
  proof -
    have "symbol_table parser ! g
        = filter (\<lambda>s. hash_name_smt2 (symbol_size parser) (node_name s) = g) live"
      using r that by (simp add: represents_def)
    also have "\<dots> = filter (\<lambda>s. hash_name_smt2 (symbol_size parser) (node_name s) = g)
          (filter (\<lambda>s. node_id s \<noteq> node_id symbol) live)"
    proof -
      have "node_id s \<noteq> node_id symbol"
        if "s \<in> set live" "hash_name_smt2 (symbol_size parser) (node_name s) = g" for s
      proof
        assume "node_id s = node_id symbol"
        moreover have "inj_on node_id (set live)"
          using d by (simp add: distinct_map)
        ultimately have "s = symbol"
          using that(1) mem by (auto dest: inj_onD)
        then show False
          using that(2) \<open>g \<noteq> ?h\<close> by simp
      qed
      then show ?thesis
        by (auto intro: filter_cong)
    qed
    finally show ?thesis .
  qed
  have "represents ?parser' (filter (\<lambda>s. node_id s \<noteq> node_id symbol) live)"
    unfolding represents_def
    using r size h len d others chain'
    by (simp add: represents_def nth_list_update distinct_map_filter del: filter_filter)
  then show ?thesis
    using result by simp
qed







lemma represents_new: "represents new_smt2_parser []"
  by (simp add: represents_def new_smt2_parser_def)

lemma apply_ops_represents:
  assumes "represents parser live" "ops_valid ops live"
  shows "\<exists>parser'. apply_ops ops parser = Ok parser'
       \<and> represents parser' (spec_live_entries ops live)"
  using assms
proof (induction ops arbitrary: parser live)
  case Nil
  then show ?case by simp
next
  case (Cons op ops)
  show ?case
  proof (cases op)
    case (Insert symbol)
    have fresh: "node_id symbol \<notin> node_id ` set live"
      using Cons.prems(2) Insert by simp
    have "represents (insert_symbol_smt2 parser symbol) (symbol # live)"
      using represents_insert [OF Cons.prems(1) fresh] by simp
    moreover have "ops_valid ops (symbol # live)"
      using Cons.prems(2) Insert by simp
    ultimately show ?thesis
      using Cons.IH Insert by simp
  next
    case (Remove symbol)
    have mem: "symbol \<in> set live"
      using Cons.prems(2) Remove by simp
    from represents_remove [OF Cons.prems(1) mem] obtain p1
      where p1: "remove_symbol_smt2 parser symbol = Ok p1"
        and r1: "represents p1 (filter (\<lambda>s. node_id s \<noteq> node_id symbol) live)"
      by blast
    have "ops_valid ops (filter (\<lambda>s. node_id s \<noteq> node_id symbol) live)"
      using Cons.prems(2) Remove by simp
    from Cons.IH [OF r1 this] show ?thesis
      using Remove p1 by simp
  qed
qed

lemma find_greatest:
  assumes "sorted (map f (rev xs))" "List.find P xs = Some s" "t \<in> set xs" "P t"
  shows "f t \<le> f s"
  using assms
proof (induction xs)
  case Nil
  then show ?case by simp
next
  case (Cons x xs)
  have le: "f y \<le> f x" if "y \<in> set xs" for y
    using Cons.prems(1) that by (auto simp: sorted_append)
  have srt: "sorted (map f (rev xs))"
    using Cons.prems(1) by (simp add: sorted_append)
  show ?case
  proof (cases "P x")
    case True
    then have "s = x" using Cons.prems(2) by simp
    then show ?thesis using Cons.prems(3) le by auto
  next
    case False
    then have f: "List.find P xs = Some s" using Cons.prems(2) by simp
    have "t \<noteq> x" using False Cons.prems(4) by auto
    then show ?thesis
      using Cons.IH [OF srt f _ Cons.prems(4)] Cons.prems(3) by simp
  qed
qed



subsection \<open>Indexed rotate\<close>

text \<open>
  C10. For \<^verbatim>\<open>((_ rotate_left k) t)\<close> and \<^verbatim>\<open>((_ rotate_right k) t)\<close> every index
  \<open>k\<close> below 2^32 is accepted when the indexed operator is read, whatever the width
  \<open>w\<close> of \<open>t\<close>; when the term is closed over one argument \<open>t\<close> that is neither an array
  nor a function, the amount given to the backend rotate is \<open>k mod w\<close>.
\<close>

theorem rotate_index_mod_width:
  assumes "item_tag lp0 = BZLA_LPAR_TAG_SMT2" and "item_tag lp = BZLA_LPAR_TAG_SMT2"
    and "tag = BZLA_BV_ROTATE_LEFT_TAG_SMT2 \<or> tag = BZLA_BV_ROTATE_RIGHT_TAG_SMT2"
    and "k < 2 ^ 32"
    and "item_tag a = BZLA_EXP_TAG_SMT2" and "payload a = Exp t"
    and "\<not> boolector_is_array t" and "\<not> boolector_is_fun t"
    and "boolector_bv_get_width t = w" and "w \<noteq> 0"
  shows "parse_open_term_indexed (ws @ [lp0, lp, us])
           ((tag, name) # (BZLA_DECIMAL_CONSTANT_TAG_SMT2, print_decimal k)
              # (BZLA_RPAR_TAG_SMT2, r) # toks)
         = Ok (ws @ [lp0, lp\<lparr>idx0 := of_nat k, item_tag := tag, payload := Node name\<rparr>], toks)
       \<and> close_term ndebug
           (ws @ [lp0, lp\<lparr>idx0 := of_nat k, item_tag := tag, payload := Node name\<rparr>, a])
         = Some (Ok (ws @ [lp0\<lparr>item_tag := BZLA_EXP_TAG_SMT2,
                               payload := Exp ((if tag = BZLA_BV_ROTATE_LEFT_TAG_SMT2
                                                then Boolector_roli else Boolector_rori)
                                               t (of_nat k mod w))\<rparr>]))
       \<and> unat (of_nat k mod w) = k mod unat w"
proof -
  let ?p = "lp\<lparr>idx0 := of_nat k, item_tag := tag, payload := Node name\<rparr>"
  have shift: "parse_open_term_indexed (ws @ [lp0, lp, us])
           ((tag, name) # (BZLA_DECIMAL_CONSTANT_TAG_SMT2, print_decimal k)
              # (BZLA_RPAR_TAG_SMT2, r) # toks) = Ok (ws @ [lp0, ?p], toks)"
    using assms(1-4)
    by (auto simp: parse_open_term_indexed_def parse_open_term_indexed_parametric_def
        check_open_term_indexed_def parse_uint32_smt2_decimal read_rpar_smt2_rpar nth_append)
  have reduce: "close_term ndebug (ws @ [lp0, ?p, a])
         = Some (Ok (ws @ [lp0\<lparr>item_tag := BZLA_EXP_TAG_SMT2,
                               payload := Exp ((if tag = BZLA_BV_ROTATE_LEFT_TAG_SMT2
                                                then Boolector_roli else Boolector_rori)
                                               t (of_nat k mod w))\<rparr>]))"
    using assms close_term_reduce [of lp0 ?p "[a]" ndebug ws]
    by (auto simp: close_term_rotate_bv_fun_def check_nargs_smt2_def
        check_not_array_or_uf_args_smt2_def num_def item_exp_def)
  have "unat (of_nat k :: u32) = k"
    using assms(4) by (simp add: unat_of_nat take_bit_nat_eq_self)
  then have amount: "unat (of_nat k mod w) = k mod unat w"
    by (simp add: unat_mod)
  from shift reduce amount show ?thesis by blast
qed

theorem rotate_index_mod_width_witness:
  "parse_open_term_indexed
       [\<lparr>item_tag = BZLA_LPAR_TAG_SMT2, idx0 = 0, idx1 = 0, payload = No_payload\<rparr>,
        \<lparr>item_tag = BZLA_LPAR_TAG_SMT2, idx0 = 0, idx1 = 0, payload = No_payload\<rparr>,
        \<lparr>item_tag = BZLA_UNDERSCORE_TAG_SMT2, idx0 = 0, idx1 = 0, payload = No_payload\<rparr>]
       [(BZLA_BV_ROTATE_LEFT_TAG_SMT2, ''rotate_left''), (BZLA_DECIMAL_CONSTANT_TAG_SMT2, ''13''),
        (BZLA_RPAR_TAG_SMT2, '')'')]
     = Ok ([\<lparr>item_tag = BZLA_LPAR_TAG_SMT2, idx0 = 0, idx1 = 0, payload = No_payload\<rparr>,
            \<lparr>item_tag = BZLA_BV_ROTATE_LEFT_TAG_SMT2, idx0 = 13, idx1 = 0,
              payload = Node ''rotate_left''\<rparr>], [])
   \<and> close_term False
       [\<lparr>item_tag = BZLA_LPAR_TAG_SMT2, idx0 = 0, idx1 = 0, payload = No_payload\<rparr>,
        \<lparr>item_tag = BZLA_BV_ROTATE_LEFT_TAG_SMT2, idx0 = 13, idx1 = 0,
          payload = Node ''rotate_left''\<rparr>,
        \<lparr>item_tag = BZLA_EXP_TAG_SMT2, idx0 = 0, idx1 = 0,
          payload = Exp (Boolector_var ''x'' 8)\<rparr>]
     = Some (Ok [\<lparr>item_tag = BZLA_EXP_TAG_SMT2, idx0 = 0, idx1 = 0,
                  payload = Exp (Boolector_roli (Boolector_var ''x'' 8) 5)\<rparr>])"
proof -
  have s: "print_decimal 13 = ''13''" by code_simp
  show ?thesis
  using rotate_index_mod_width
    [of "\<lparr>item_tag = BZLA_LPAR_TAG_SMT2, idx0 = 0, idx1 = 0, payload = No_payload\<rparr>"
        "\<lparr>item_tag = BZLA_LPAR_TAG_SMT2, idx0 = 0, idx1 = 0, payload = No_payload\<rparr>"
        BZLA_BV_ROTATE_LEFT_TAG_SMT2 13
        "\<lparr>item_tag = BZLA_EXP_TAG_SMT2, idx0 = 0, idx1 = 0, payload = Exp (Boolector_var ''x'' 8)\<rparr>"
        "Boolector_var ''x'' 8" 8 "[]"
        "\<lparr>item_tag = BZLA_UNDERSCORE_TAG_SMT2, idx0 = 0, idx1 = 0, payload = No_payload\<rparr>"
        "''rotate_left''" "'')''" "[]" False]
  by (simp add: s)
qed

subsection \<open>Extract\<close>

text \<open>
  C4. For \<^verbatim>\<open>((_ extract hi lo) t)\<close> with \<open>t\<close> neither an array nor a function and of
  width \<open>w\<close>: reading the indexed operator reports "first parameter 'hi' of '(_ extract'
  smaller than second 'lo'" when \<open>hi < lo\<close> and otherwise leaves the operator item with
  both indices on the work stack; closing the term then reports "first (high) 'extract'
  parameter hi too large for bit-vector argument of bit-width w" when \<open>w \<le> hi\<close>, and
  otherwise the term reduces to the slice of \<open>t\<close> from bit \<open>hi\<close> down to bit \<open>lo\<close>.
\<close>

theorem extract_bounds:
  assumes "item_tag lp0 = BZLA_LPAR_TAG_SMT2" and "item_tag lp = BZLA_LPAR_TAG_SMT2"
    and "hi < 2 ^ 32" and "lo < 2 ^ 32"
    and "item_tag a = BZLA_EXP_TAG_SMT2" and "payload a = Exp t"
    and "\<not> boolector_is_array t" and "\<not> boolector_is_fun t"
    and "unat (boolector_bv_get_width t) = w"
  shows "parse_open_term_indexed (ws @ [lp0, lp, us])
           ((BZLA_BV_EXTRACT_TAG_SMT2, name) # (BZLA_DECIMAL_CONSTANT_TAG_SMT2, print_decimal hi)
              # (BZLA_DECIMAL_CONSTANT_TAG_SMT2, print_decimal lo) # (BZLA_RPAR_TAG_SMT2, r) # toks)
         = (if hi < lo
            then Perr (''first parameter '' @ sq @ print_decimal hi @ sq @ '' of '' @ sq
                       @ ''(_ extract'' @ sq @ '' smaller than second '' @ sq
                       @ print_decimal lo @ sq)
            else Ok (ws @ [lp0, lp\<lparr>idx0 := of_nat hi, idx1 := of_nat lo,
                                    item_tag := BZLA_BV_EXTRACT_TAG_SMT2, payload := Node name\<rparr>],
                     toks))
       \<and> close_term ndebug
           (ws @ [lp0, lp\<lparr>idx0 := of_nat hi, idx1 := of_nat lo,
                            item_tag := BZLA_BV_EXTRACT_TAG_SMT2, payload := Node name\<rparr>, a])
         = (if w \<le> hi
            then Some (Perr (''first (high) 'extract' parameter '' @ print_decimal hi
                        @ '' too large for bit-vector argument of bit-width ''
                        @ print_decimal w))
            else Some (Ok (ws @ [lp0\<lparr>item_tag := BZLA_EXP_TAG_SMT2,
                              payload := Exp (Boolector_bv_slice t (of_nat hi) (of_nat lo))\<rparr>])))"
proof -
  let ?p = "lp\<lparr>idx0 := of_nat hi, idx1 := of_nat lo,
                item_tag := BZLA_BV_EXTRACT_TAG_SMT2, payload := Node name\<rparr>"
  have u: "unat (of_nat hi :: u32) = hi" "unat (of_nat lo :: u32) = lo"
    using assms(3,4) by (simp_all add: unat_of_nat take_bit_nat_eq_self)
  have lt: "(of_nat hi :: u32) < of_nat lo \<longleftrightarrow> hi < lo"
    using u by (simp add: word_less_nat_alt)
  have le: "boolector_bv_get_width t \<le> of_nat hi \<longleftrightarrow> w \<le> hi"
    using u assms(9) by (simp add: word_le_nat_alt)
  have shift: "parse_open_term_indexed (ws @ [lp0, lp, us])
           ((BZLA_BV_EXTRACT_TAG_SMT2, name) # (BZLA_DECIMAL_CONSTANT_TAG_SMT2, print_decimal hi)
              # (BZLA_DECIMAL_CONSTANT_TAG_SMT2, print_decimal lo) # (BZLA_RPAR_TAG_SMT2, r) # toks)
         = (if hi < lo
            then Perr (''first parameter '' @ sq @ print_decimal hi @ sq @ '' of '' @ sq
                       @ ''(_ extract'' @ sq @ '' smaller than second '' @ sq
                       @ print_decimal lo @ sq)
            else Ok (ws @ [lp0, ?p], toks))"
    using assms(1-4)
    by (simp add: parse_open_term_indexed_def parse_open_term_indexed_parametric_def
        check_open_term_indexed_def parse_uint32_smt2_decimal read_rpar_smt2_rpar nth_append
        u lt)
  have reduce: "close_term ndebug (ws @ [lp0, ?p, a])
         = (if w \<le> hi
            then Some (Perr (''first (high) 'extract' parameter '' @ print_decimal hi
                        @ '' too large for bit-vector argument of bit-width ''
                        @ print_decimal w))
            else Some (Ok (ws @ [lp0\<lparr>item_tag := BZLA_EXP_TAG_SMT2,
                              payload := Exp (Boolector_bv_slice t (of_nat hi) (of_nat lo))\<rparr>])))"
    using assms close_term_reduce [of lp0 ?p "[a]" ndebug ws]
    by (auto simp: close_term_extract_def check_nargs_smt2_def
        check_not_array_or_uf_args_smt2_def item_exp_def u le)
  from shift reduce show ?thesis by blast
qed

theorem extract_bounds_witness:
  "parse_open_term_indexed
       [\<lparr>item_tag = BZLA_LPAR_TAG_SMT2, idx0 = 0, idx1 = 0, payload = No_payload\<rparr>,
        \<lparr>item_tag = BZLA_LPAR_TAG_SMT2, idx0 = 0, idx1 = 0, payload = No_payload\<rparr>,
        \<lparr>item_tag = BZLA_UNDERSCORE_TAG_SMT2, idx0 = 0, idx1 = 0, payload = No_payload\<rparr>]
       [(BZLA_BV_EXTRACT_TAG_SMT2, ''extract''), (BZLA_DECIMAL_CONSTANT_TAG_SMT2, ''8''),
        (BZLA_DECIMAL_CONSTANT_TAG_SMT2, ''0''), (BZLA_RPAR_TAG_SMT2, '')'')]
     = Ok ([\<lparr>item_tag = BZLA_LPAR_TAG_SMT2, idx0 = 0, idx1 = 0, payload = No_payload\<rparr>,
            \<lparr>item_tag = BZLA_BV_EXTRACT_TAG_SMT2, idx0 = 8, idx1 = 0,
              payload = Node ''extract''\<rparr>], [])
   \<and> close_term False
       [\<lparr>item_tag = BZLA_LPAR_TAG_SMT2, idx0 = 0, idx1 = 0, payload = No_payload\<rparr>,
        \<lparr>item_tag = BZLA_BV_EXTRACT_TAG_SMT2, idx0 = 8, idx1 = 0, payload = Node ''extract''\<rparr>,
        \<lparr>item_tag = BZLA_EXP_TAG_SMT2, idx0 = 0, idx1 = 0,
          payload = Exp (Boolector_var ''z'' 8)\<rparr>]
     = Some (Perr (''first (high) 'extract' parameter 8 too large for ''
                   @ ''bit-vector argument of bit-width 8''))"
proof -
  have s: "print_decimal 8 = ''8''" "print_decimal 0 = ''0''" by code_simp+
  show ?thesis
    using extract_bounds
      [of "\<lparr>item_tag = BZLA_LPAR_TAG_SMT2, idx0 = 0, idx1 = 0, payload = No_payload\<rparr>"
          "\<lparr>item_tag = BZLA_LPAR_TAG_SMT2, idx0 = 0, idx1 = 0, payload = No_payload\<rparr>"
          8 0
          "\<lparr>item_tag = BZLA_EXP_TAG_SMT2, idx0 = 0, idx1 = 0, payload = Exp (Boolector_var ''z'' 8)\<rparr>"
          "Boolector_var ''z'' 8" 8 "[]"
          "\<lparr>item_tag = BZLA_UNDERSCORE_TAG_SMT2, idx0 = 0, idx1 = 0, payload = No_payload\<rparr>"
          "''extract''" "'')''" "[]" False]
    by (simp add: s)
qed

subsection \<open>Bit-vector constants \<^verbatim>\<open>(_ bvK n)\<close>\<close>

text \<open>
  C5. For \<^verbatim>\<open>(_ bvK n)\<close> with \<open>K\<close> the value of the decimal digits after \<^verbatim>\<open>bv\<close> and
  \<open>n\<close> a positive width below 2^32: when the binary numeral of \<open>K\<close> needs more than
  \<open>n\<close> bits, that is when \<open>2 ^ n \<le> K\<close>, the parser reports "decimal constant 'K' needs
  ... bits which exceeds bit-width 'n'"; otherwise the form becomes an expression item
  holding a constant of width \<open>n\<close>, with \<open>n\<close> bits, whose value is \<open>K\<close>. The decimal
  numeral of every \<open>K\<close> is such a digit string.
\<close>

theorem bv_constant_value:
  assumes "item_tag lp = BZLA_LPAR_TAG_SMT2"
    and "ks \<noteq> []" and "list_all isdigit ks" and "dec_str_to_nat ks = K"
    and "0 < n" and "n < 2 ^ 32"
  shows "(2 ^ n \<le> K \<longrightarrow>
            parse_open_term_indexed (ws @ [lp, us])
              ((BZLA_SYMBOL_TAG_SMT2, ''bv'' @ ks) # (BZLA_DECIMAL_CONSTANT_TAG_SMT2, print_decimal n)
                 # (BZLA_RPAR_TAG_SMT2, r) # toks)
            = Perr (''decimal constant '' @ sq @ ks @ sq @ '' needs ''
                    @ print_decimal (length (bin_str_of_nat K))
                    @ '' bits which exceeds bit-width '' @ sq @ print_decimal n @ sq))
       \<and> (K < 2 ^ n \<longrightarrow>
            (\<exists>e. parse_open_term_indexed (ws @ [lp, us])
                   ((BZLA_SYMBOL_TAG_SMT2, ''bv'' @ ks)
                      # (BZLA_DECIMAL_CONSTANT_TAG_SMT2, print_decimal n)
                      # (BZLA_RPAR_TAG_SMT2, r) # toks)
                 = Ok (ws @ [lp\<lparr>item_tag := BZLA_EXP_TAG_SMT2, payload := Exp e\<rparr>], toks)
               \<and> boolector_is_const e \<and> unat (boolector_bv_get_width e) = n
               \<and> length (boolector_get_bits e) = n \<and> const_value e = K))
       \<and> (n < length (bzla_util_dec_to_bin_str ks) \<longleftrightarrow> 2 ^ n \<le> K)
       \<and> print_decimal K \<noteq> [] \<and> list_all isdigit (print_decimal K)
       \<and> dec_str_to_nat (print_decimal K) = K"
proof -
  let ?toks = "(BZLA_SYMBOL_TAG_SMT2, ''bv'' @ ks) # (BZLA_DECIMAL_CONSTANT_TAG_SMT2, print_decimal n)
                 # (BZLA_RPAR_TAG_SMT2, r) # toks"
  let ?e = "(if length (bin_str_of_nat K) = n
              then Boolector_const (bin_str_of_nat K)
              else if K = 0 then Boolector_zero (of_nat n)
              else Boolector_const
                     (bzla_bv_to_char
                        (bzla_bv_uext (bzla_bv_char_to_bv (bin_str_of_nat K))
                           (n - length (bin_str_of_nat K)))))"
  have bvstr: "is_bvconst_str_smt2 (''bv'' @ ks)"
    using assms(2,3) by (cases ks) (simp_all add: is_bvconst_str_smt2_def)
  have big: "parse_open_term_indexed (ws @ [lp, us]) ?toks
            = Perr (''decimal constant '' @ sq @ ks @ sq @ '' needs ''
                    @ print_decimal (length (bin_str_of_nat K))
                    @ '' bits which exceeds bit-width '' @ sq @ print_decimal n @ sq)"
    if "2 ^ n \<le> K"
    using that assms(1,4) bvstr
    by (simp add: parse_open_term_indexed_def nth_append bvconst_exp_value [OF assms(5,6)])
  have small: "parse_open_term_indexed (ws @ [lp, us]) ?toks
            = Ok (ws @ [lp\<lparr>item_tag := BZLA_EXP_TAG_SMT2, payload := Exp ?e\<rparr>], toks)"
    if "K < 2 ^ n"
    using that assms(1,4) bvstr
    by (simp add: parse_open_term_indexed_def nth_append bvconst_exp_value [OF assms(5,6)]
        read_rpar_smt2_rpar Let_def)
  have node: "boolector_is_const ?e \<and> unat (boolector_bv_get_width ?e) = n
       \<and> length (boolector_get_bits ?e) = n \<and> const_value ?e = K" if "K < 2 ^ n"
    by (rule bvconst_node [OF that assms(5,6) refl])
  have bits: "n < length (bzla_util_dec_to_bin_str ks) \<longleftrightarrow> 2 ^ n \<le> K"
    using length_bin_str_le [of K n] assms(4) by (auto simp: bzla_util_dec_to_bin_str_def)
  from big small node bits digits_print_decimal [of K] dec_str_to_nat_print_decimal [of K]
  show ?thesis by blast
qed

theorem bv_constant_value_witness:
  "(\<exists>e. parse_open_term_indexed
           [\<lparr>item_tag = BZLA_LPAR_TAG_SMT2, idx0 = 0, idx1 = 0, payload = No_payload\<rparr>,
            \<lparr>item_tag = BZLA_UNDERSCORE_TAG_SMT2, idx0 = 0, idx1 = 0, payload = No_payload\<rparr>]
           [(BZLA_SYMBOL_TAG_SMT2, ''bv5''), (BZLA_DECIMAL_CONSTANT_TAG_SMT2, ''8''),
            (BZLA_RPAR_TAG_SMT2, '')'')]
         = Ok ([\<lparr>item_tag = BZLA_EXP_TAG_SMT2, idx0 = 0, idx1 = 0, payload = Exp e\<rparr>], [])
       \<and> boolector_is_const e \<and> unat (boolector_bv_get_width e) = 8
       \<and> length (boolector_get_bits e) = 8 \<and> const_value e = 5)
   \<and> parse_open_term_indexed
           [\<lparr>item_tag = BZLA_LPAR_TAG_SMT2, idx0 = 0, idx1 = 0, payload = No_payload\<rparr>,
            \<lparr>item_tag = BZLA_UNDERSCORE_TAG_SMT2, idx0 = 0, idx1 = 0, payload = No_payload\<rparr>]
           [(BZLA_SYMBOL_TAG_SMT2, ''bv5''), (BZLA_DECIMAL_CONSTANT_TAG_SMT2, ''2''),
            (BZLA_RPAR_TAG_SMT2, '')'')]
       = Perr (''decimal constant '' @ sq @ ''5'' @ sq @ '' needs 3 bits which exceeds bit-width ''
               @ sq @ ''2'' @ sq)"
proof -
  let ?lp = "\<lparr>item_tag = BZLA_LPAR_TAG_SMT2, idx0 = 0, idx1 = 0, payload = No_payload\<rparr>"
  let ?us = "\<lparr>item_tag = BZLA_UNDERSCORE_TAG_SMT2, idx0 = 0, idx1 = 0, payload = No_payload\<rparr>"
  have s: "print_decimal 5 = ''5''" "print_decimal 8 = ''8''" "print_decimal 2 = ''2''"
    "print_decimal 3 = ''3''"
    by code_simp+
  have b: "length (bin_str_of_nat 5) = 3" by code_simp
  have k: "dec_str_to_nat ''5'' = 5" "list_all isdigit ''5''" by code_simp+
  have fits: "\<exists>e. parse_open_term_indexed [?lp, ?us]
           [(BZLA_SYMBOL_TAG_SMT2, ''bv5''), (BZLA_DECIMAL_CONSTANT_TAG_SMT2, ''8''),
            (BZLA_RPAR_TAG_SMT2, '')'')]
         = Ok ([\<lparr>item_tag = BZLA_EXP_TAG_SMT2, idx0 = 0, idx1 = 0, payload = Exp e\<rparr>], [])
       \<and> boolector_is_const e \<and> unat (boolector_bv_get_width e) = 8
       \<and> length (boolector_get_bits e) = 8 \<and> const_value e = 5"
    using bv_constant_value [of ?lp "''5''" 5 8 "[]" ?us "'')''" "[]"] k
    by (simp add: s)
  have exceeds: "parse_open_term_indexed [?lp, ?us]
           [(BZLA_SYMBOL_TAG_SMT2, ''bv5''), (BZLA_DECIMAL_CONSTANT_TAG_SMT2, ''2''),
            (BZLA_RPAR_TAG_SMT2, '')'')]
       = Perr (''decimal constant '' @ sq @ ''5'' @ sq @ '' needs 3 bits which exceeds bit-width ''
               @ sq @ ''2'' @ sq)"
    using bv_constant_value [of ?lp "''5''" 5 2 "[]" ?us "'')''" "[]"] k
    by (simp add: s b)
  from fits exceeds show ?thesis by blast
qed

subsection \<open>Equality and distinctness\<close>

text \<open>
  C6. With at least two arguments of one sort, \<^verbatim>\<open>(= x1 ... xn)\<close> reduces to the
  conjunction of the \<open>n - 1\<close> equalities of consecutive arguments and
  \<^verbatim>\<open>(distinct x1 ... xn)\<close> to the conjunction of the \<open>n (n - 1) / 2\<close> disequalities of
  the pairs \<open>i < j\<close>; with no argument and with exactly one argument both operators
  report an error.
\<close>

theorem equal_distinct_reduction:
  assumes "item_tag lp = BZLA_LPAR_TAG_SMT2"
    and "item_tag peq = BZLA_EQUAL_TAG_SMT2" and "item_tag pd = BZLA_DISTINCT_TAG_SMT2"
    and "list_all (\<lambda>a. item_tag a = BZLA_EXP_TAG_SMT2) args"
    and "2 \<le> length args"
    and "\<forall>a \<in> set args. boolector_is_equal_sort (item_exp (hd args)) (item_exp a)"
    and "item_tag a1 = BZLA_EXP_TAG_SMT2"
  shows "close_term ndebug (ws @ lp # peq # args)
           = Some (Ok (ws @ [lp\<lparr>item_tag := BZLA_EXP_TAG_SMT2,
                payload := Exp (spec_conjunction (spec_chain_equalities (map item_exp args)))\<rparr>]))
       \<and> length (spec_chain_equalities (map item_exp args)) = length args - 1
       \<and> close_term ndebug (ws @ lp # pd # args)
           = Some (Ok (ws @ [lp\<lparr>item_tag := BZLA_EXP_TAG_SMT2,
                payload := Exp (spec_conjunction
                                  (spec_pairwise_disequalities (map item_exp args)))\<rparr>]))
       \<and> length (spec_pairwise_disequalities (map item_exp args))
           = length args * (length args - 1) div 2
       \<and> close_term ndebug (ws @ [lp, peq]) = Some (Perr (''arguments to '' @ sq @ ''='' @ sq @ '' missing''))
       \<and> close_term ndebug (ws @ [lp, peq, a1]) = Some (Perr (''only one argument to '' @ sq @ ''='' @ sq))
       \<and> close_term ndebug (ws @ [lp, pd])
           = Some (Perr (''arguments to '' @ sq @ ''distinct'' @ sq @ '' missing''))
       \<and> close_term ndebug (ws @ [lp, pd, a1])
           = Some (Perr (''only one argument to '' @ sq @ ''distinct'' @ sq))"
proof -
  have ne: "args \<noteq> []" using assms(5) by auto
  have sorts: "check_arg_sorts_match_smt2 p args 0 (length args) = None" for p
    using check_arg_sorts_match_uniform [OF ne assms(6)] .
  have eq: "close_term_equal peq args
      = Ok (spec_conjunction (spec_chain_equalities (map item_exp args)))"
    using assms(5) ne fold_equalities [OF assms(5), of "arg_exp args"]
    by (simp add: close_term_equal_def sorts chain_equalities_args spec_conjunction_def
        Let_def del: upt_Suc)
  have di: "close_term_distinct pd args
      = Ok (spec_conjunction (spec_pairwise_disequalities (map item_exp args)))"
    using assms(5) ne distinct_pairs_nonempty [OF assms(5)]
    by (simp add: close_term_distinct_def sorts pairwise_disequalities_args spec_conjunction_def
        Let_def fold_disequalities_None)
  have c1: "close_term ndebug (ws @ lp # peq # args)
           = Some (Ok (ws @ [lp\<lparr>item_tag := BZLA_EXP_TAG_SMT2,
                payload := Exp (spec_conjunction (spec_chain_equalities (map item_exp args)))\<rparr>]))"
    using close_term_reduce [of lp peq args ndebug ws] assms(1,2,4) by (simp add: eq)
  have c2: "close_term ndebug (ws @ lp # pd # args)
           = Some (Ok (ws @ [lp\<lparr>item_tag := BZLA_EXP_TAG_SMT2,
                payload := Exp (spec_conjunction
                                  (spec_pairwise_disequalities (map item_exp args)))\<rparr>]))"
    using close_term_reduce [of lp pd args ndebug ws] assms(1,3,4) by (simp add: di)
  have l1: "length (spec_chain_equalities (map item_exp args)) = length args - 1"
    by (simp add: spec_chain_equalities_def)
  have l2: "length (spec_pairwise_disequalities (map item_exp args))
           = length args * (length args - 1) div 2"
    by (simp add: pairwise_disequalities_args length_distinct_pairs)
  have e1: "close_term ndebug (ws @ [lp, peq]) = Some (Perr (''arguments to '' @ sq @ ''='' @ sq @ '' missing''))"
    using close_term_reduce [of lp peq "[]" ndebug ws] assms(1,2)
    by (simp add: close_term_equal_def)
  have e2: "close_term ndebug (ws @ [lp, peq, a1]) = Some (Perr (''only one argument to '' @ sq @ ''='' @ sq))"
    using close_term_reduce [of lp peq "[a1]" ndebug ws] assms(1,2,7)
    by (simp add: close_term_equal_def)
  have e3: "close_term ndebug (ws @ [lp, pd])
           = Some (Perr (''arguments to '' @ sq @ ''distinct'' @ sq @ '' missing''))"
    using close_term_reduce [of lp pd "[]" ndebug ws] assms(1,3)
    by (simp add: close_term_distinct_def)
  have e4: "close_term ndebug (ws @ [lp, pd, a1])
           = Some (Perr (''only one argument to '' @ sq @ ''distinct'' @ sq))"
    using close_term_reduce [of lp pd "[a1]" ndebug ws] assms(1,3,7)
    by (simp add: close_term_distinct_def)
  from c1 l1 c2 l2 e1 e2 e3 e4 show ?thesis by blast
qed

theorem equal_distinct_reduction_witness:
  "close_term False
       [\<lparr>item_tag = BZLA_LPAR_TAG_SMT2, idx0 = 0, idx1 = 0, payload = No_payload\<rparr>,
        \<lparr>item_tag = BZLA_EQUAL_TAG_SMT2, idx0 = 0, idx1 = 0, payload = Node ''=''\<rparr>,
        \<lparr>item_tag = BZLA_EXP_TAG_SMT2, idx0 = 0, idx1 = 0, payload = Exp (Boolector_var ''x'' 8)\<rparr>,
        \<lparr>item_tag = BZLA_EXP_TAG_SMT2, idx0 = 0, idx1 = 0, payload = Exp (Boolector_var ''y'' 8)\<rparr>,
        \<lparr>item_tag = BZLA_EXP_TAG_SMT2, idx0 = 0, idx1 = 0, payload = Exp (Boolector_var ''z'' 8)\<rparr>]
     = Some (Ok [\<lparr>item_tag = BZLA_EXP_TAG_SMT2, idx0 = 0, idx1 = 0,
          payload = Exp (Boolector_and
                           (Boolector_eq (Boolector_var ''x'' 8) (Boolector_var ''y'' 8))
                           (Boolector_eq (Boolector_var ''y'' 8) (Boolector_var ''z'' 8)))\<rparr>])
   \<and> close_term False
       [\<lparr>item_tag = BZLA_LPAR_TAG_SMT2, idx0 = 0, idx1 = 0, payload = No_payload\<rparr>,
        \<lparr>item_tag = BZLA_DISTINCT_TAG_SMT2, idx0 = 0, idx1 = 0, payload = Node ''distinct''\<rparr>,
        \<lparr>item_tag = BZLA_EXP_TAG_SMT2, idx0 = 0, idx1 = 0, payload = Exp (Boolector_var ''x'' 8)\<rparr>,
        \<lparr>item_tag = BZLA_EXP_TAG_SMT2, idx0 = 0, idx1 = 0, payload = Exp (Boolector_var ''y'' 8)\<rparr>,
        \<lparr>item_tag = BZLA_EXP_TAG_SMT2, idx0 = 0, idx1 = 0, payload = Exp (Boolector_var ''z'' 8)\<rparr>]
     = Some (Ok [\<lparr>item_tag = BZLA_EXP_TAG_SMT2, idx0 = 0, idx1 = 0,
          payload = Exp (Boolector_and
                           (Boolector_and
                              (Boolector_ne (Boolector_var ''x'' 8) (Boolector_var ''y'' 8))
                              (Boolector_ne (Boolector_var ''x'' 8) (Boolector_var ''z'' 8)))
                           (Boolector_ne (Boolector_var ''y'' 8) (Boolector_var ''z'' 8)))\<rparr>])"
proof -
  let ?lp = "\<lparr>item_tag = BZLA_LPAR_TAG_SMT2, idx0 = 0, idx1 = 0, payload = No_payload\<rparr>"
  let ?eq = "\<lparr>item_tag = BZLA_EQUAL_TAG_SMT2, idx0 = 0, idx1 = 0, payload = Node ''=''\<rparr>"
  let ?di = "\<lparr>item_tag = BZLA_DISTINCT_TAG_SMT2, idx0 = 0, idx1 = 0, payload = Node ''distinct''\<rparr>"
  let ?x = "\<lparr>item_tag = BZLA_EXP_TAG_SMT2, idx0 = 0, idx1 = 0, payload = Exp (Boolector_var ''x'' 8)\<rparr>"
  let ?y = "\<lparr>item_tag = BZLA_EXP_TAG_SMT2, idx0 = 0, idx1 = 0, payload = Exp (Boolector_var ''y'' 8)\<rparr>"
  let ?z = "\<lparr>item_tag = BZLA_EXP_TAG_SMT2, idx0 = 0, idx1 = 0, payload = Exp (Boolector_var ''z'' 8)\<rparr>"
  have eqs: "spec_chain_equalities [Boolector_var ''x'' 8, Boolector_var ''y'' 8, Boolector_var ''z'' 8]
      = [Boolector_eq (Boolector_var ''x'' 8) (Boolector_var ''y'' 8),
         Boolector_eq (Boolector_var ''y'' 8) (Boolector_var ''z'' 8)]"
    by code_simp
  have nes: "spec_pairwise_disequalities
        [Boolector_var ''x'' 8, Boolector_var ''y'' 8, Boolector_var ''z'' 8]
      = [Boolector_ne (Boolector_var ''x'' 8) (Boolector_var ''y'' 8),
         Boolector_ne (Boolector_var ''x'' 8) (Boolector_var ''z'' 8),
         Boolector_ne (Boolector_var ''y'' 8) (Boolector_var ''z'' 8)]"
    by code_simp
  show ?thesis
    using equal_distinct_reduction [of ?lp ?eq ?di "[?x, ?y, ?z]" ?x False "[]"]
    by (simp add: eqs nes spec_conjunction_def item_exp_def boolector_is_equal_sort_def)
qed

subsection \<open>Extended rotate\<close>

text \<open>
  C8, at \<^verbatim>\<open>(ext_rotate_left t #b0111)\<close> with \<open>t\<close> of width 4. The constant 7 is not
  reduced modulo the width: with assertions the call aborts in
  \<^verbatim>\<open>translate_ext_rotate_smt2\<close>, without them the backend rotate is given 7, whereas
  7 modulo 4 is 3.
\<close>

theorem ext_rotate_not_reduced:
  "close_term False
       [\<lparr>item_tag = BZLA_LPAR_TAG_SMT2, idx0 = 0, idx1 = 0, payload = No_payload\<rparr>,
        \<lparr>item_tag = BZLA_BV_EXT_ROTATE_LEFT_TAG_SMT2, idx0 = 0, idx1 = 0,
          payload = Node ''ext_rotate_left''\<rparr>,
        \<lparr>item_tag = BZLA_EXP_TAG_SMT2, idx0 = 0, idx1 = 0,
          payload = Exp (Boolector_var ''t'' 4)\<rparr>,
        \<lparr>item_tag = BZLA_EXP_TAG_SMT2, idx0 = 0, idx1 = 0,
          payload = Exp (Boolector_const ''0111'')\<rparr>]
     = Some Aborted
   \<and> close_term True
       [\<lparr>item_tag = BZLA_LPAR_TAG_SMT2, idx0 = 0, idx1 = 0, payload = No_payload\<rparr>,
        \<lparr>item_tag = BZLA_BV_EXT_ROTATE_LEFT_TAG_SMT2, idx0 = 0, idx1 = 0,
          payload = Node ''ext_rotate_left''\<rparr>,
        \<lparr>item_tag = BZLA_EXP_TAG_SMT2, idx0 = 0, idx1 = 0,
          payload = Exp (Boolector_var ''t'' 4)\<rparr>,
        \<lparr>item_tag = BZLA_EXP_TAG_SMT2, idx0 = 0, idx1 = 0,
          payload = Exp (Boolector_const ''0111'')\<rparr>]
     = Some (Ok [\<lparr>item_tag = BZLA_EXP_TAG_SMT2, idx0 = 0, idx1 = 0,
                  payload = Exp (Boolector_roli (Boolector_var ''t'' 4) 7)\<rparr>])
   \<and> const_value (Boolector_const ''0111'')
       mod unat (boolector_bv_get_width (Boolector_var ''t'' 4)) = 3"
  by code_simp

subsection \<open>Numerals in the lexer\<close>




subsection \<open>Logic inference\<close>

text \<open>
  C3 (as the code has it). Without \<^verbatim>\<open>set-logic\<close> the recorded logic depends on the
  zero enumerator \<open>zero\<close> of \<^verbatim>\<open>BzlaLogic\<close>: from \<^verbatim>\<open>ALL\<close> it becomes \<^verbatim>\<open>BV\<close> when
  quantifiers were seen, else \<^verbatim>\<open>QF_AUFBV\<close> when functions or arrays were seen, else
  \<^verbatim>\<open>QF_BV\<close>; from \<^verbatim>\<open>QF_BV\<close> it becomes \<^verbatim>\<open>QF_AUFBV\<close> for functions with arrays,
  \<^verbatim>\<open>QF_UFBV\<close> for functions alone and stays \<^verbatim>\<open>QF_BV\<close> otherwise, quantifiers or not;
  every other value is kept. After \<^verbatim>\<open>set-logic QF_BV\<close>, needed functions upgrade the
  logic to \<^verbatim>\<open>QF_UFBV\<close> (\<^verbatim>\<open>QF_AUFBV\<close> with arrays) and a message is printed.
\<close>

theorem determine_logic_inference:
  "logic_without_set_logic zero fs as qs =
     (if zero = BZLA_LOGIC_ALL
      then (if qs then BZLA_LOGIC_BV
            else if fs \<or> as then BZLA_LOGIC_QF_AUFBV else BZLA_LOGIC_QF_BV)
      else if zero = BZLA_LOGIC_QF_BV
      then (if fs \<and> as then BZLA_LOGIC_QF_AUFBV
            else if fs then BZLA_LOGIC_QF_UFBV else BZLA_LOGIC_QF_BV)
      else zero)
   \<and> snd (determine_logic \<lparr>need_arrays = as, need_functions = True, need_quantifiers = qs,
                           commands_set_logic = Suc n, res_logic = BZLA_LOGIC_QF_BV\<rparr>)
       = (if as then BZLA_LOGIC_QF_AUFBV else BZLA_LOGIC_QF_UFBV)
   \<and> fst (determine_logic \<lparr>need_arrays = as, need_functions = True, need_quantifiers = qs,
                           commands_set_logic = Suc n, res_logic = BZLA_LOGIC_QF_BV\<rparr>)
       \<noteq> []"
  by (simp add: logic_without_set_logic_def determine_logic_def)

text \<open>
  Whichever enumerator is the zero one, some observed features give a logic other than
  the one the inference rule of the specification names: functions alone from
  \<^verbatim>\<open>ALL\<close> or \<^verbatim>\<open>BV\<close>, quantifiers from \<^verbatim>\<open>QF_BV\<close>, no feature at all from the others.
\<close>

theorem determine_logic_counterexample:
  "logic_without_set_logic BZLA_LOGIC_ALL True False False \<noteq> spec_inferred_logic True False False
   \<and> logic_without_set_logic BZLA_LOGIC_BV True False False \<noteq> spec_inferred_logic True False False
   \<and> logic_without_set_logic BZLA_LOGIC_QF_BV False False True \<noteq> spec_inferred_logic False False True
   \<and> logic_without_set_logic BZLA_LOGIC_QF_ABV False False False \<noteq> spec_inferred_logic False False False
   \<and> logic_without_set_logic BZLA_LOGIC_QF_AUFBV False False False \<noteq> spec_inferred_logic False False False
   \<and> logic_without_set_logic BZLA_LOGIC_QF_FP False False False \<noteq> spec_inferred_logic False False False
   \<and> logic_without_set_logic BZLA_LOGIC_QF_UFBV False False False \<noteq> spec_inferred_logic False False False"
  by (simp add: logic_without_set_logic_def determine_logic_def spec_inferred_logic_def)

subsection \<open>Quoted and unquoted names\<close>

text \<open>
  C7. For a name \<open>x\<close> that is not itself written between bars, \<^verbatim>\<open>find_symbol_smt2\<close>
  gives the same result for \<open>|x|\<close> and for \<open>x\<close>, in every state of the table: both are
  hashed without the bars, so the same chain is searched, and the comparison of the loop
  accepts a node for one spelling exactly if it accepts it for the other. So if either
  spelling finds an entry, the other finds that entry.
\<close>

theorem quoted_unquoted_same_entry:
  assumes "\<not> is_quoted x"
  shows "find_symbol_smt2 parser (''|'' @ x @ ''|'') = find_symbol_smt2 parser x"
  using assms
  by (simp add: find_symbol_smt2_def hash_name_smt2_alt name_hash_bars same_symbol_name_bars)

theorem quoted_unquoted_same_entry_witness:
  "\<not> is_quoted ''f''
   \<and> find_symbol_smt2
         (insert_symbol_smt2 new_smt2_parser
            \<lparr>node_id = 1, node_tag = BZLA_SYMBOL_TAG_SMT2, node_name = ''|f|'',
              node_scope_level = 0\<rparr>) ''|f|''
       = Some \<lparr>node_id = 1, node_tag = BZLA_SYMBOL_TAG_SMT2, node_name = ''|f|'',
                node_scope_level = 0\<rparr>
   \<and> find_symbol_smt2
         (insert_symbol_smt2 new_smt2_parser
            \<lparr>node_id = 1, node_tag = BZLA_SYMBOL_TAG_SMT2, node_name = ''|f|'',
              node_scope_level = 0\<rparr>) ''f''
       = Some \<lparr>node_id = 1, node_tag = BZLA_SYMBOL_TAG_SMT2, node_name = ''|f|'',
                node_scope_level = 0\<rparr>"
proof -
  have unquoted: "\<not> is_quoted ''f''"
    by code_simp
  have found: "find_symbol_smt2
         (insert_symbol_smt2 new_smt2_parser
            \<lparr>node_id = 1, node_tag = BZLA_SYMBOL_TAG_SMT2, node_name = ''|f|'',
              node_scope_level = 0\<rparr>) ''f''
       = Some \<lparr>node_id = 1, node_tag = BZLA_SYMBOL_TAG_SMT2, node_name = ''|f|'',
                node_scope_level = 0\<rparr>"
    by code_simp
  show ?thesis
    using quoted_unquoted_same_entry
      [OF unquoted, of "insert_symbol_smt2 new_smt2_parser
            \<lparr>node_id = 1, node_tag = BZLA_SYMBOL_TAG_SMT2, node_name = ''|f|'',
              node_scope_level = 0\<rparr>"] unquoted found
    by simp
qed

subsection \<open>Lookup after insertions and removals\<close>

text \<open>
  C2. After any sequence of insertions of newly allocated nodes and removals of live
  nodes, started on the empty table, no assertion has failed and \<^verbatim>\<open>find_symbol_smt2\<close>
  returns, for every name, the most recently inserted live entry with that name; the
  doublings of the table on the way keep the order of every chain. If the live entries
  were inserted at scope levels that never decrease, no live entry with the name has a
  greater scope level than the entry found.
\<close>

theorem find_most_recent_live_entry:
  assumes "ops_valid ops []"
  shows "\<exists>parser. apply_ops ops new_smt2_parser = Ok parser
       \<and> (\<forall>name. find_symbol_smt2 parser name
                     = spec_most_recent (spec_live_entries ops []) name)
       \<and> (sorted (map node_scope_level (rev (spec_live_entries ops []))) \<longrightarrow>
            (\<forall>name s t. find_symbol_smt2 parser name = Some s
                 \<and> t \<in> set (spec_live_entries ops [])
                 \<and> same_symbol_name (node_name t) name
               \<longrightarrow> node_scope_level t \<le> node_scope_level s))"
proof -
  from apply_ops_represents [OF represents_new assms] obtain parser
    where run: "apply_ops ops new_smt2_parser = Ok parser"
      and r: "represents parser (spec_live_entries ops [])"
    by blast
  have found: "find_symbol_smt2 parser name = spec_most_recent (spec_live_entries ops []) name"
    for name
    unfolding spec_most_recent_def by (rule represents_find [OF r])
  have "node_scope_level t \<le> node_scope_level s"
    if "sorted (map node_scope_level (rev (spec_live_entries ops [])))"
      and "find_symbol_smt2 parser name = Some s"
      and "t \<in> set (spec_live_entries ops [])"
      and "same_symbol_name (node_name t) name" for name s t
    using find_greatest [of node_scope_level "spec_live_entries ops []"
        "\<lambda>s. same_symbol_name (node_name s) name" s t] that
    by (simp add: found spec_most_recent_def)
  then show ?thesis
    using run found by blast
qed

theorem find_most_recent_live_entry_witness:
  "ops_valid
     [Insert \<lparr>node_id = 1, node_tag = BZLA_SYMBOL_TAG_SMT2, node_name = ''x'',
               node_scope_level = 0\<rparr>,
      Insert \<lparr>node_id = 2, node_tag = BZLA_SYMBOL_TAG_SMT2, node_name = ''y'',
               node_scope_level = 0\<rparr>,
      Insert \<lparr>node_id = 3, node_tag = BZLA_SYMBOL_TAG_SMT2, node_name = ''|x|'',
               node_scope_level = 1\<rparr>,
      Remove \<lparr>node_id = 2, node_tag = BZLA_SYMBOL_TAG_SMT2, node_name = ''y'',
               node_scope_level = 0\<rparr>] []
   \<and> (\<exists>parser.
        apply_ops
          [Insert \<lparr>node_id = 1, node_tag = BZLA_SYMBOL_TAG_SMT2, node_name = ''x'',
                    node_scope_level = 0\<rparr>,
           Insert \<lparr>node_id = 2, node_tag = BZLA_SYMBOL_TAG_SMT2, node_name = ''y'',
                    node_scope_level = 0\<rparr>,
           Insert \<lparr>node_id = 3, node_tag = BZLA_SYMBOL_TAG_SMT2, node_name = ''|x|'',
                    node_scope_level = 1\<rparr>,
           Remove \<lparr>node_id = 2, node_tag = BZLA_SYMBOL_TAG_SMT2, node_name = ''y'',
                    node_scope_level = 0\<rparr>] new_smt2_parser = Ok parser
        \<and> symbol_size parser = 4
        \<and> find_symbol_smt2 parser ''x''
            = Some \<lparr>node_id = 3, node_tag = BZLA_SYMBOL_TAG_SMT2, node_name = ''|x|'',
                     node_scope_level = 1\<rparr>
        \<and> find_symbol_smt2 parser ''y'' = None)"
proof -
  let ?ops = "[Insert \<lparr>node_id = 1, node_tag = BZLA_SYMBOL_TAG_SMT2, node_name = ''x'',
                    node_scope_level = 0\<rparr>,
           Insert \<lparr>node_id = 2, node_tag = BZLA_SYMBOL_TAG_SMT2, node_name = ''y'',
                    node_scope_level = 0\<rparr>,
           Insert \<lparr>node_id = 3, node_tag = BZLA_SYMBOL_TAG_SMT2, node_name = ''|x|'',
                    node_scope_level = 1\<rparr>,
           Remove \<lparr>node_id = 2, node_tag = BZLA_SYMBOL_TAG_SMT2, node_name = ''y'',
                    node_scope_level = 0\<rparr>]"
  have valid: "ops_valid ?ops []"
    by simp
  have size: "apply_ops ?ops new_smt2_parser
      = Ok \<lparr>scope_level = 0, symbol_size = 4, symbol_count = 2,
           symbol_table =
             [[\<lparr>node_id = 3, node_tag = BZLA_SYMBOL_TAG_SMT2,
                  node_name = ''|x|'', node_scope_level = 1\<rparr>,
               \<lparr>node_id = 1, node_tag = BZLA_SYMBOL_TAG_SMT2,
                  node_name = ''x'', node_scope_level = 0\<rparr>],
              [], [], []],
           global_declarations = False, backend_calls = []\<rparr>"
    by code_simp
  have x: "spec_most_recent (spec_live_entries ?ops []) ''x''
      = Some \<lparr>node_id = 3, node_tag = BZLA_SYMBOL_TAG_SMT2, node_name = ''|x|'',
               node_scope_level = 1\<rparr>"
    by code_simp
  have y: "spec_most_recent (spec_live_entries ?ops []) ''y'' = None"
    by code_simp
  from find_most_recent_live_entry [OF valid] obtain parser
    where "apply_ops ?ops new_smt2_parser = Ok parser"
      and "\<forall>name. find_symbol_smt2 parser name
                     = spec_most_recent (spec_live_entries ?ops []) name"
    by blast
  then show ?thesis
    using valid size x y by auto
qed

text \<open>
  Without that condition the entry found need not have the greatest scope level. With
  \<^verbatim>\<open>:global-declarations\<close> set, \<^verbatim>\<open>(push 1)\<close>, a declaration of \<open>x\<close> and \<^verbatim>\<open>(pop 1)\<close> leave
  the entry of level 1 in the table at level 0; a binder that shadows \<open>x\<close> then inserts
  an entry of level 0 in front of it, which is the one found.
\<close>

theorem find_greatest_scope_level_counterexample:
  "push_command 1 (new_smt2_parser\<lparr>global_declarations := True\<rparr>)
     = Ok \<lparr>scope_level = 1, symbol_size = 0, symbol_count = 0, symbol_table = [],
            global_declarations = True, backend_calls = [Boolector_push 1]\<rparr>
   \<and> new_node_smt2
         \<lparr>scope_level = 1, symbol_size = 0, symbol_count = 0, symbol_table = [],
           global_declarations = True, backend_calls = [Boolector_push 1]\<rparr>
         1 BZLA_SYMBOL_TAG_SMT2 ''x''
     = \<lparr>node_id = 1, node_tag = BZLA_SYMBOL_TAG_SMT2, node_name = ''x'',
         node_scope_level = 1\<rparr>
   \<and> pop_command 1
         (insert_symbol_smt2
            \<lparr>scope_level = 1, symbol_size = 0, symbol_count = 0, symbol_table = [],
              global_declarations = True, backend_calls = [Boolector_push 1]\<rparr>
            \<lparr>node_id = 1, node_tag = BZLA_SYMBOL_TAG_SMT2, node_name = ''x'',
              node_scope_level = 1\<rparr>)
     = Ok \<lparr>scope_level = 0, symbol_size = 1, symbol_count = 1,
            symbol_table = [[\<lparr>node_id = 1, node_tag = BZLA_SYMBOL_TAG_SMT2,
                               node_name = ''x'', node_scope_level = 1\<rparr>]],
            global_declarations = True,
            backend_calls = [Boolector_pop 1, Boolector_push 1]\<rparr>
   \<and> insert_symbol_smt2
         \<lparr>scope_level = 0, symbol_size = 1, symbol_count = 1,
           symbol_table = [[\<lparr>node_id = 1, node_tag = BZLA_SYMBOL_TAG_SMT2,
                              node_name = ''x'', node_scope_level = 1\<rparr>]],
           global_declarations = True,
           backend_calls = [Boolector_pop 1, Boolector_push 1]\<rparr>
         (new_node_smt2
            \<lparr>scope_level = 0, symbol_size = 1, symbol_count = 1,
              symbol_table = [[\<lparr>node_id = 1, node_tag = BZLA_SYMBOL_TAG_SMT2,
                                 node_name = ''x'', node_scope_level = 1\<rparr>]],
              global_declarations = True,
              backend_calls = [Boolector_pop 1, Boolector_push 1]\<rparr>
            2 BZLA_SYMBOL_TAG_SMT2 ''x'')
     = \<lparr>scope_level = 0, symbol_size = 2, symbol_count = 2,
         symbol_table = [[\<lparr>node_id = 2, node_tag = BZLA_SYMBOL_TAG_SMT2,
                            node_name = ''x'', node_scope_level = 0\<rparr>,
                          \<lparr>node_id = 1, node_tag = BZLA_SYMBOL_TAG_SMT2,
                            node_name = ''x'', node_scope_level = 1\<rparr>], []],
         global_declarations = True,
         backend_calls = [Boolector_pop 1, Boolector_push 1]\<rparr>
   \<and> find_symbol_smt2
         \<lparr>scope_level = 0, symbol_size = 2, symbol_count = 2,
           symbol_table = [[\<lparr>node_id = 2, node_tag = BZLA_SYMBOL_TAG_SMT2,
                              node_name = ''x'', node_scope_level = 0\<rparr>,
                            \<lparr>node_id = 1, node_tag = BZLA_SYMBOL_TAG_SMT2,
                              node_name = ''x'', node_scope_level = 1\<rparr>], []],
           global_declarations = True,
           backend_calls = [Boolector_pop 1, Boolector_push 1]\<rparr> ''x''
     = Some \<lparr>node_id = 2, node_tag = BZLA_SYMBOL_TAG_SMT2, node_name = ''x'',
              node_scope_level = 0\<rparr>"
proof -
  have h: "hash_name_smt2 (Suc 0) ''x'' = 0" "hash_name_smt2 2 ''x'' = 0"
    by code_simp+
  have two: "replicate 2 ([] :: BzlaSMT2Node list) = [[], []]"
    by (simp add: numeral_2_eq_2)
  have q: "\<not> is_quoted ''x''"
    by code_simp
  show ?thesis
    by (simp add: push_command_def pop_command_def open_new_scope_def close_current_scope_def
        new_smt2_parser_def new_node_smt2_def insert_symbol_smt2_def
        enlarge_symbol_table_smt2_def rehash_chain_def rehash_node_def find_symbol_smt2_def
        same_symbol_name_def Let_def h q two)
qed

subsection \<open>Push and pop\<close>




end
